theory Spec2Isabelle
  imports Complex_Main "HOL-Library.Signed_Division"
begin

section \<open>C++ values and failures\<close>

text \<open>
  The model follows \<^verbatim>\<open>src/src/sre/Inspector.cpp\<close>. A C++ \<^verbatim>\<open>int\<close> is an \<^typ>\<open>int\<close> whose
  operations are checked against the 32-bit range: signed overflow, division by zero and
  an index outside a \<^verbatim>\<open>std::vector\<close> are undefined behaviour in the source and are
  error values here.
\<close>

datatype error =
    DivisionByZero
  | SignedOverflow
  | OutOfBounds
  | LengthError
  | DanglingPointer
  | ShapeMismatch

definition bind_err :: "error + 'a \<Rightarrow> ('a \<Rightarrow> error + 'b) \<Rightarrow> error + 'b" where
  "bind_err r f = (case r of Inl e \<Rightarrow> Inl e | Inr x \<Rightarrow> f x)"

definition INT_MAX :: int where
  "INT_MAX = 2147483647"

definition INT_MIN :: int where
  "INT_MIN = - 2147483648"

definition int_result :: "int \<Rightarrow> error + int" where
  "int_result v = (if INT_MIN \<le> v \<and> v \<le> INT_MAX then Inr v else Inl SignedOverflow)"

definition int_add :: "int \<Rightarrow> int \<Rightarrow> error + int" where
  "int_add a b = int_result (a + b)"

definition int_neg :: "int \<Rightarrow> error + int" where
  "int_neg a = int_result (- a)"

text \<open>The operator \<^verbatim>\<open>%\<close> truncates towards zero: \<open>smod\<close>, not \<open>mod\<close>.\<close>

definition int_mod :: "int \<Rightarrow> int \<Rightarrow> error + int" where
  "int_mod a b =
     (if b = 0 then Inl DivisionByZero
      else bind_err (int_result (a sdiv b)) (\<lambda>_. Inr (a smod b)))"

text \<open>\<^verbatim>\<open>v[i]\<close> and \<^verbatim>\<open>v[i] = x\<close> on a \<^verbatim>\<open>std::vector\<close>.\<close>

definition at_vec :: "'a list \<Rightarrow> int \<Rightarrow> error + 'a" where
  "at_vec v i = (if 0 \<le> i \<and> i < int (length v) then Inr (v ! nat i) else Inl OutOfBounds)"

definition set_vec :: "'a list \<Rightarrow> int \<Rightarrow> 'a \<Rightarrow> error + 'a list" where
  "set_vec v i x =
     (if 0 \<le> i \<and> i < int (length v) then Inr (v[nat i := x]) else Inl OutOfBounds)"

text \<open>\<^verbatim>\<open>v.resize(n)\<close> on an empty vector: a negative \<^verbatim>\<open>int\<close> converts to a size beyond
  \<^verbatim>\<open>max_size()\<close> and \<^verbatim>\<open>std::length_error\<close> is thrown; the new elements are
  value-initialised.\<close>

definition resize_vec :: "int \<Rightarrow> 'a \<Rightarrow> error + 'a list" where
  "resize_vec n z = (if n < 0 then Inl LengthError else Inr (replicate (nat n) z))"

section \<open>Floats\<close>

text \<open>A \<^verbatim>\<open>float\<close> is an IEEE 754 binary32 value: a finite one is the real number it
  stands for, and the three others are the infinities and the result of an invalid
  operation. Every operation rounds the exact result to the nearest binary32 value, a
  tie to the one with an even last bit; a result of magnitude \<open>2 ^ 128\<close> or more after
  rounding is infinite. The two zeros are not told apart: a zero divisor counts as
  positive.\<close>

datatype float32 = Fin real | PInf | NInf | NaN

definition round_even :: "real \<Rightarrow> int" where
  "round_even y =
     (let f = \<lfloor>y\<rfloor>; d = y - of_int f
      in if d < 1 / 2 then f else if 1 / 2 < d then f + 1 else if even f then f else f + 1)"

text \<open>The exponent of the binade of \<open>a > 0\<close>, from -126 for the subnormal numbers and the
  smallest normal ones up to 128 for what is beyond the finite floats.\<close>

fun exp_up :: "nat \<Rightarrow> real \<Rightarrow> int" where
  "exp_up 0 a = 0"
| "exp_up (Suc k) a = (if a < 2 then 0 else 1 + exp_up k (a / 2))"

fun exp_down :: "nat \<Rightarrow> real \<Rightarrow> int" where
  "exp_down 0 a = 0"
| "exp_down (Suc k) a = (if 1 \<le> a then 0 else exp_down k (2 * a) - 1)"

definition binary32_exponent :: "real \<Rightarrow> int" where
  "binary32_exponent a = (if 1 \<le> a then exp_up 128 a else exp_down 126 a)"

text \<open>Rounding to 24 significant bits: to a multiple of \<open>2 ^ (e - 23)\<close> in binade \<open>e\<close>.\<close>

definition float_round :: "real \<Rightarrow> real" where
  "float_round x =
     (if x = 0 then 0
      else (let u = 2 powi (binary32_exponent \<bar>x\<bar> - 23)
            in u * of_int (round_even (x / u))))"

definition round32 :: "real \<Rightarrow> float32" where
  "round32 x =
     (let r = float_round x
      in if 2 ^ 128 \<le> r then PInf else if r \<le> - (2 ^ 128) then NInf else Fin r)"

fun fneg32 :: "float32 \<Rightarrow> float32" where
  "fneg32 (Fin x) = Fin (- x)"
| "fneg32 PInf = NInf"
| "fneg32 NInf = PInf"
| "fneg32 NaN = NaN"

fun fadd32 :: "float32 \<Rightarrow> float32 \<Rightarrow> float32" where
  "fadd32 (Fin x) (Fin y) = round32 (x + y)"
| "fadd32 (Fin x) PInf = PInf"
| "fadd32 (Fin x) NInf = NInf"
| "fadd32 PInf (Fin y) = PInf"
| "fadd32 NInf (Fin y) = NInf"
| "fadd32 PInf PInf = PInf"
| "fadd32 NInf NInf = NInf"
| "fadd32 PInf NInf = NaN"
| "fadd32 NInf PInf = NaN"
| "fadd32 NaN b = NaN"
| "fadd32 a NaN = NaN"

definition fsub32 :: "float32 \<Rightarrow> float32 \<Rightarrow> float32" where
  "fsub32 a b = fadd32 a (fneg32 b)"

fun fmul32 :: "float32 \<Rightarrow> float32 \<Rightarrow> float32" where
  "fmul32 (Fin x) (Fin y) = round32 (x * y)"
| "fmul32 (Fin x) PInf = (if x = 0 then NaN else if 0 < x then PInf else NInf)"
| "fmul32 (Fin x) NInf = (if x = 0 then NaN else if 0 < x then NInf else PInf)"
| "fmul32 PInf (Fin y) = (if y = 0 then NaN else if 0 < y then PInf else NInf)"
| "fmul32 NInf (Fin y) = (if y = 0 then NaN else if 0 < y then NInf else PInf)"
| "fmul32 PInf PInf = PInf"
| "fmul32 NInf NInf = PInf"
| "fmul32 PInf NInf = NInf"
| "fmul32 NInf PInf = NInf"
| "fmul32 NaN b = NaN"
| "fmul32 a NaN = NaN"

fun fdiv32 :: "float32 \<Rightarrow> float32 \<Rightarrow> float32" where
  "fdiv32 (Fin x) (Fin y) =
     (if y = 0 then (if x = 0 then NaN else if 0 < x then PInf else NInf)
      else round32 (x / y))"
| "fdiv32 (Fin x) PInf = Fin 0"
| "fdiv32 (Fin x) NInf = Fin 0"
| "fdiv32 PInf (Fin y) = (if 0 \<le> y then PInf else NInf)"
| "fdiv32 NInf (Fin y) = (if 0 \<le> y then NInf else PInf)"
| "fdiv32 PInf PInf = NaN"
| "fdiv32 NInf NInf = NaN"
| "fdiv32 PInf NInf = NaN"
| "fdiv32 NInf PInf = NaN"
| "fdiv32 NaN b = NaN"
| "fdiv32 a NaN = NaN"

text \<open>The comparison \<^verbatim>\<open><\<close>, and \<^verbatim>\<open>std::max(a, b)\<close>, which is \<^verbatim>\<open>(a < b) ? b : a\<close>.\<close>

fun flt32 :: "float32 \<Rightarrow> float32 \<Rightarrow> bool" where
  "flt32 (Fin x) (Fin y) = (x < y)"
| "flt32 (Fin x) PInf = True"
| "flt32 NInf (Fin y) = True"
| "flt32 NInf PInf = True"
| "flt32 a b = False"

definition fmax32 :: "float32 \<Rightarrow> float32 \<Rightarrow> float32" where
  "fmax32 a b = (if flt32 a b then b else a)"

text \<open>The conversion of an \<^verbatim>\<open>int\<close> to \<^verbatim>\<open>float\<close>; the result is finite.\<close>

definition float_of_int :: "int \<Rightarrow> real" where
  "float_of_int i = float_round (real_of_int i)"

section \<open>The inspector's state\<close>

text \<open>The counters of the renderer's statistics record that the inspector reads.\<close>

record RenderStats =
  drawCalls :: int
  stateChangesShader :: int
  stateChangesMaterial :: int
  stateChangesMesh :: int
  meshBytes :: int
  textureBytes :: int

definition RenderStats_zero :: RenderStats where
  "RenderStats_zero = \<lparr>drawCalls = 0, stateChangesShader = 0, stateChangesMaterial = 0,
     stateChangesMesh = 0, meshBytes = 0, textureBytes = 0\<rparr>"

record Texture =
  texName :: string
  texWidth :: int
  texHeight :: int
  texCubemap :: bool

record Framebuffer =
  fbName :: string
  fbTexture :: Texture

record WorldLights =
  ambientLight :: "real \<times> real \<times> real"
  pointLights :: "(real \<times> real \<times> real) list"

text \<open>A shader object is named by its address; a \<^verbatim>\<open>std::weak_ptr\<close> holds the address of
  the object it was made from, or nothing. The declaration of the class \<^verbatim>\<open>Inspector\<close> is
  not among the sources: its members are taken from their uses, with \<open>frames\<close>,
  \<open>frameCount\<close> and \<open>usedTextures\<close> of type \<^verbatim>\<open>int\<close> as the constructor and the loops
  use them.\<close>

type_synonym shader_ptr = nat

record Inspector =
  frames :: int
  frameCount :: int
  stats :: "RenderStats list"
  milliseconds :: "real list"
  data :: "real list"
  lastTick :: real
  time :: real
  usedTextures :: int
  offscreenTextures :: "Texture list"
  framebuffer :: "Framebuffer option"
  worldLights :: WorldLights
  shaderEdit :: "shader_ptr option"

text \<open>\<^verbatim>\<open>Inspector::Inspector(int frames, SDLRenderer*)\<close>; \<open>now\<close> is the value of
  \<^verbatim>\<open>Clock::now()\<close>. The members the constructor does not mention start empty or zero.\<close>

definition Inspector_new :: "int \<Rightarrow> real \<Rightarrow> error + Inspector" where
  "Inspector_new n now =
     bind_err (resize_vec n RenderStats_zero) (\<lambda>st.
     bind_err (resize_vec n 0) (\<lambda>ms.
     bind_err (resize_vec n 0) (\<lambda>d.
       Inr \<lparr>frames = n, frameCount = 0, stats = st, milliseconds = ms, data = d,
            lastTick = now, time = 0, usedTextures = 0, offscreenTextures = [],
            framebuffer = None,
            worldLights = \<lparr>ambientLight = (0, 0, 0), pointLights = []\<rparr>,
            shaderEdit = None\<rparr>)))"

section \<open>Recording a frame\<close>

text \<open>\<^verbatim>\<open>Inspector::update\<close>; \<open>tick\<close> is \<^verbatim>\<open>Clock::now()\<close> and \<open>rs\<close> the renderer's
  statistics of the frame.\<close>

definition update :: "Inspector \<Rightarrow> real \<Rightarrow> RenderStats \<Rightarrow> error + Inspector" where
  "update s tick rs =
     (let s1 = s\<lparr>usedTextures := 0\<rparr>;
          deltaTime = tick - lastTick s1;
          s2 = s1\<lparr>time := time s1 + deltaTime\<rparr>;
          s3 = s2\<lparr>lastTick := tick\<rparr>
      in bind_err (int_mod (frameCount s3) (frames s3)) (\<lambda>k.
         bind_err (set_vec (stats s3) k rs) (\<lambda>st.
         bind_err (int_mod (frameCount s3) (frames s3)) (\<lambda>k'.
         bind_err (set_vec (milliseconds s3) k' deltaTime) (\<lambda>ms.
         bind_err (int_add (frameCount s3) 1) (\<lambda>fc.
           Inr (s3\<lparr>stats := st, milliseconds := ms, frameCount := fc\<rparr>)))))))"

text \<open>One call of \<open>update\<close> per rendered frame, each with its clock value and statistics.\<close>

fun updates :: "Inspector \<Rightarrow> (real \<times> RenderStats) list \<Rightarrow> error + Inspector" where
  "updates s [] = Inr s"
| "updates s ((tick, rs) # fs) = bind_err (update s tick rs) (\<lambda>s'. updates s' fs)"

definition run_frames :: "int \<Rightarrow> real \<Rightarrow> (real \<times> RenderStats) list \<Rightarrow> error + Inspector" where
  "run_frames n now fs = bind_err (Inspector_new n now) (\<lambda>s. updates s fs)"

text \<open>The frame times that \<open>update\<close> records: each clock value minus the one before.\<close>

fun deltas :: "real \<Rightarrow> real list \<Rightarrow> real list" where
  "deltas l [] = []"
| "deltas l (t # ts) = (t - l) # deltas t ts"

section \<open>Reading the ring buffer for display\<close>

text \<open>The index expressions of the loops in \<^verbatim>\<open>Inspector::gui\<close>:
  \<^verbatim>\<open>(frameCount + i)%frames\<close> and \<^verbatim>\<open>(-frameCount%frames+idx+frames)%frames\<close>.\<close>

definition read_index :: "int \<Rightarrow> int \<Rightarrow> int \<Rightarrow> error + int" where
  "read_index fc n i =
     bind_err (int_add fc i) (\<lambda>a. int_mod a n)"

definition display_index :: "int \<Rightarrow> int \<Rightarrow> int \<Rightarrow> error + int" where
  "display_index fc n idx =
     bind_err (int_neg fc) (\<lambda>nf.
     bind_err (int_mod nf n) (\<lambda>m.
     bind_err (int_add m idx) (\<lambda>b.
     bind_err (int_add b n) (\<lambda>c.
       int_mod c n))))"

text \<open>The loop \<^verbatim>\<open>for (int i=0;i<frames;i++)\<close> over one series; \<open>sample idx\<close> is the
  expression read at slot \<open>idx\<close>, a finite float. The state is the display buffer, the
  maximum and the sum. \<^verbatim>\<open>i++\<close> cannot overflow below \<open>n\<close>.\<close>

function plot_loop ::
  "int \<Rightarrow> int \<Rightarrow> int \<Rightarrow> (int \<Rightarrow> error + real) \<Rightarrow> real list \<times> real \<times> float32
     \<Rightarrow> error + (real list \<times> real \<times> float32)" where
  "plot_loop i n fc sample (d, mx, sm) =
     (if i < n then
        bind_err (read_index fc n i) (\<lambda>idx.
        bind_err (sample idx) (\<lambda>t.
        bind_err (display_index fc n idx) (\<lambda>k.
        bind_err (set_vec d k t) (\<lambda>d'.
          plot_loop (i + 1) n fc sample (d', max mx t, fadd32 sm (Fin t))))))
      else Inr (d, mx, sm))"
  by pat_completeness auto
termination
  by (relation "measure (\<lambda>(i, n, fc, sample, acc). nat (n - i))") auto

declare plot_loop.simps [simp del]

text \<open>\<^verbatim>\<open>avg = 0; if (frameCount > 0) avg = sum / std::min(frameCount, frames);\<close>\<close>

definition running_avg :: "int \<Rightarrow> int \<Rightarrow> float32 \<Rightarrow> float32" where
  "running_avg fc n sm =
     (if fc > 0 then fdiv32 sm (Fin (float_of_int (min fc n))) else Fin 0)"

text \<open>One plotted series: the loop from \<open>max = 0\<close>, \<open>sum = 0\<close>, then the average. The
  result is the inspector with its display buffer filled, the average and the maximum.\<close>

definition plot_series ::
  "Inspector \<Rightarrow> (int \<Rightarrow> error + real) \<Rightarrow> error + (Inspector \<times> float32 \<times> real)" where
  "plot_series s sample =
     bind_err (plot_loop 0 (frames s) (frameCount s) sample (data s, 0, Fin 0))
       (\<lambda>(d, mx, sm).
          Inr (s\<lparr>data := d\<rparr>, running_avg (frameCount s) (frames s) sm, mx))"

text \<open>The samples of the five series of \<^verbatim>\<open>Inspector::gui\<close>:
  \<^verbatim>\<open>milliseconds[idx]\<close>, \<^verbatim>\<open>stats[idx].drawCalls\<close>,
  \<^verbatim>\<open>stats[idx].stateChangesShader + stats[idx].stateChangesMaterial + stats[idx].stateChangesMesh\<close>,
  \<^verbatim>\<open>stats[idx].meshBytes/1000000.0f\<close> and \<^verbatim>\<open>stats[idx].textureBytes/1000000.0f\<close>.
  The counters are \<^verbatim>\<open>int\<close>: their sum is taken in \<^verbatim>\<open>int\<close> and then converted, and a
  quotient by a million is finite.\<close>

definition sample_milliseconds :: "Inspector \<Rightarrow> int \<Rightarrow> error + real" where
  "sample_milliseconds s idx = at_vec (milliseconds s) idx"

definition sample_stats ::
  "Inspector \<Rightarrow> (RenderStats \<Rightarrow> error + real) \<Rightarrow> int \<Rightarrow> error + real" where
  "sample_stats s f idx = bind_err (at_vec (stats s) idx) f"

definition sample_drawCalls :: "RenderStats \<Rightarrow> error + real" where
  "sample_drawCalls r = Inr (float_of_int (drawCalls r))"

definition sample_stateChanges :: "RenderStats \<Rightarrow> error + real" where
  "sample_stateChanges r =
     bind_err (int_add (stateChangesShader r) (stateChangesMaterial r)) (\<lambda>a.
     bind_err (int_add a (stateChangesMesh r)) (\<lambda>b.
       Inr (float_of_int b)))"

definition sample_meshMB :: "RenderStats \<Rightarrow> error + real" where
  "sample_meshMB r = Inr (float_round (float_of_int (meshBytes r) / 1000000))"

definition sample_textureMB :: "RenderStats \<Rightarrow> error + real" where
  "sample_textureMB r = Inr (float_round (float_of_int (textureBytes r) / 1000000))"

section \<open>What the user interface is told and what it answers\<close>

text \<open>The immediate-mode interface is outside the program. Its calls that matter for the
  inspector's state are recorded as events; its answers within one frame are the fields
  of \<open>Env\<close>. Labels that only print a field of an object, and the formatting of the
  numbers, are left out.\<close>

text \<open>A \<^verbatim>\<open>glm::vec3\<close> of finite floats, as the corners of a bounding box are, and one of
  any floats.\<close>

type_synonym vec3 = "real \<times> real \<times> real"

type_synonym fvec3 = "float32 \<times> float32 \<times> float32"

datatype Material = LitMaterial | UnlitMaterial | ShaderMaterial shader_ptr

datatype MeshRef = PreviewSphere | MeshAt nat

text \<open>The matrix given to \<^verbatim>\<open>draw\<close>, by its factors: the angle of \<^verbatim>\<open>glm::eulerAngleY\<close>, the
  vector of \<^verbatim>\<open>glm::scale\<close> and the vector of \<^verbatim>\<open>glm::translate\<close>.\<close>

record Transform =
  rotationY :: float32
  scaling :: fvec3
  translation :: fvec3

datatype ShaderType =
    Vertex
  | Fragment
  | Geometry
  | TessellationControl
  | TessellationEvaluation
  | NumberOfShaderTypes

datatype ui_event =
    LabelText string string
  | PlotLines string float32 real "real list"
  | Draw MeshRef Transform "Material list" Texture
  | Image Texture
  | EditorWindow shader_ptr string
  | Compile shader_ptr "(string \<times> ShaderType) list"
  | EditorRender string bool

record Shader =
  shaderName :: string
  shaderSources :: "(ShaderType \<times> string) list"

record Mesh =
  meshName :: string
  indexSets :: int
  hasNormals :: bool
  boundsMin :: vec3
  boundsMax :: vec3

text \<open>The registries of the renderer that \<^verbatim>\<open>Inspector::gui\<close> walks: raw pointers to the
  live objects. Textures and meshes are given with their address; a shader is looked up
  in the store of live shaders, which is also what a weak pointer is locked against.\<close>

record Renderer =
  shaders :: "shader_ptr list"
  textures :: "(nat \<times> Texture) list"
  meshes :: "(nat \<times> Mesh) list"

datatype Palette = Dark | Light

text \<open>The answers of the interface during one call of \<^verbatim>\<open>gui\<close>:
  \<open>collapsingHeader\<close> and \<open>treeNode\<close> say whether the node with that label is open,
  \<open>editButton\<close> whether the button \<open>Edit\<close> of that shader was pressed; \<open>combo\<close> gets the
  current index and the number of items and gives whether the choice changed and the
  index it leaves; \<open>checkbox\<close> gets and gives the flag likewise; \<open>windowOpen\<close> is the
  flag that \<^verbatim>\<open>ImGui::Begin\<close> leaves in \<^verbatim>\<open>open\<close>; \<open>editorInput\<close> is what the user makes of
  the text in the editor; \<open>getSource\<close> and \<open>precompile\<close> stand for the static functions
  of \<^verbatim>\<open>Shader\<close> of these names, which are not among the sources.\<close>

record Env =
  collapsingHeader :: "string \<Rightarrow> bool"
  treeNode :: "string \<Rightarrow> bool"
  editButton :: "shader_ptr \<Rightarrow> bool"
  combo :: "int \<Rightarrow> nat \<Rightarrow> bool \<times> int"
  checkbox :: "bool \<Rightarrow> bool \<times> bool"
  compileButton :: bool
  windowOpen :: bool
  editorInput :: "string \<Rightarrow> string"
  getSource :: "string \<Rightarrow> string"
  precompile :: "string \<Rightarrow> string"

section \<open>The performance and memory plots\<close>

definition gui_performance :: "Env \<Rightarrow> Inspector \<Rightarrow> error + (Inspector \<times> ui_event list)" where
  "gui_performance env s =
     (if collapsingHeader env ''Performance'' then
        bind_err (plot_series s (sample_milliseconds s)) (\<lambda>(s1, avg1, max1).
        bind_err (plot_series s1 (sample_stats s1 sample_drawCalls)) (\<lambda>(s2, avg2, max2).
        bind_err (plot_series s2 (sample_stats s2 sample_stateChanges)) (\<lambda>(s3, avg3, max3).
          Inr (s3, [PlotLines ''Milliseconds'' avg1 max1 (data s1),
                    PlotLines ''Draw calls'' avg2 max2 (data s2),
                    PlotLines ''State changes'' avg3 max3 (data s3)]))))
      else Inr (s, []))"

definition gui_memory :: "Env \<Rightarrow> Inspector \<Rightarrow> error + (Inspector \<times> ui_event list)" where
  "gui_memory env s =
     (if collapsingHeader env ''Memory'' then
        bind_err (plot_series s (sample_stats s sample_meshMB)) (\<lambda>(s1, avg1, max1).
        bind_err (plot_series s1 (sample_stats s1 sample_textureMB)) (\<lambda>(s2, avg2, max2).
          Inr (s2, [PlotLines ''Mesh MB'' avg1 max1 (data s1),
                    PlotLines ''Texture MB'' avg2 max2 (data s2)])))
      else Inr (s, []))"

section \<open>The pool of scratch textures\<close>

text \<open>\<^verbatim>\<open>std::to_string\<close> of a size or an address.\<close>

fun to_string :: "nat \<Rightarrow> string" where
  "to_string n =
     (if n < 10 then [char_of (48 + n)]
      else to_string (n div 10) @ [char_of (48 + n mod 10)])"

declare to_string.simps [simp del]

text \<open>The texture that \<^verbatim>\<open>getTmpTexture\<close> builds when the pool holds \<open>k\<close> textures:
  256 by 256, named after \<open>k\<close>.\<close>

definition scratch_texture :: "nat \<Rightarrow> Texture" where
  "scratch_texture k =
     \<lparr>texName = ''SRE Inspector Tex #'' @ to_string k, texWidth = 256, texHeight = 256,
      texCubemap = False\<rparr>"

text \<open>\<^verbatim>\<open>Inspector::getTmpTexture\<close>. In \<^verbatim>\<open>usedTextures < offscreenTextures.size()\<close> the
  \<^verbatim>\<open>int\<close> is converted to the unsigned size type, so a negative count compares as a
  huge one.\<close>

definition getTmpTexture :: "Inspector \<Rightarrow> error + (Texture \<times> Inspector)" where
  "getTmpTexture s =
     (if 0 \<le> usedTextures s \<and> usedTextures s < int (length (offscreenTextures s)) then
        (let index = usedTextures s
         in bind_err (int_add (usedTextures s) 1) (\<lambda>u.
            bind_err (at_vec (offscreenTextures s) index) (\<lambda>tex.
              Inr (tex, s\<lparr>usedTextures := u\<rparr>))))
      else
        (let offscreenTex = scratch_texture (length (offscreenTextures s));
             s1 = s\<lparr>offscreenTextures := offscreenTextures s @ [offscreenTex]\<rparr>
         in bind_err (int_add (usedTextures s1) 1) (\<lambda>u.
              Inr (offscreenTex, s1\<lparr>usedTextures := u\<rparr>))))"

text \<open>The preview requests of one frame, one after the other; the textures they got are
  returned in the order of the requests.\<close>

fun getTmpTextures :: "nat \<Rightarrow> Inspector \<Rightarrow> error + (Texture list \<times> Inspector)" where
  "getTmpTextures 0 s = Inr ([], s)"
| "getTmpTextures (Suc m) s =
     bind_err (getTmpTexture s) (\<lambda>(tex, s1).
     bind_err (getTmpTextures m s1) (\<lambda>(texs, s2).
       Inr (tex # texs, s2)))"

text \<open>\<^verbatim>\<open>Inspector::initFramebuffer\<close>.\<close>

definition initFramebuffer :: "Inspector \<Rightarrow> error + Inspector" where
  "initFramebuffer s =
     (case framebuffer s of
        None \<Rightarrow>
          bind_err (getTmpTexture s) (\<lambda>(tex, s1).
            Inr (s1\<lparr>framebuffer :=
                       Some \<lparr>fbName = ''SRE Inspector Framebufferobject'', fbTexture = tex\<rparr>,
                     usedTextures := 0,
                     worldLights :=
                       \<lparr>ambientLight = (0.2, 0.2, 0.2),
                        pointLights = pointLights (worldLights s1) @ [(0, 0, 4)]\<rparr>\<rparr>))
      | Some fb \<Rightarrow> Inr s)"

text \<open>\<^verbatim>\<open>framebuffer->setTexture(offscreenTexture)\<close>; the pointer is null before
  \<open>initFramebuffer\<close>.\<close>

definition setTexture :: "Inspector \<Rightarrow> Texture \<Rightarrow> error + Inspector" where
  "setTexture s tex =
     (case framebuffer s of
        None \<Rightarrow> Inl DanglingPointer
      | Some fb \<Rightarrow> Inr (s\<lparr>framebuffer := Some (fb\<lparr>fbTexture := tex\<rparr>)\<rparr>))"

section \<open>The previews\<close>

text \<open>The arithmetic of \<^verbatim>\<open>glm::vec3\<close>, component by component.\<close>

definition vec_floats :: "vec3 \<Rightarrow> fvec3" where
  "vec_floats a = (case a of (ax, ay, az) \<Rightarrow> (Fin ax, Fin ay, Fin az))"

definition vec_add :: "fvec3 \<Rightarrow> fvec3 \<Rightarrow> fvec3" where
  "vec_add a b =
     (case (a, b) of ((ax, ay, az), (bx, by, bz)) \<Rightarrow>
        (fadd32 ax bx, fadd32 ay by, fadd32 az bz))"

definition vec_sub :: "fvec3 \<Rightarrow> fvec3 \<Rightarrow> fvec3" where
  "vec_sub a b =
     (case (a, b) of ((ax, ay, az), (bx, by, bz)) \<Rightarrow>
        (fsub32 ax bx, fsub32 ay by, fsub32 az bz))"

definition vec_scale :: "fvec3 \<Rightarrow> float32 \<Rightarrow> fvec3" where
  "vec_scale a c = (case a of (ax, ay, az) \<Rightarrow> (fmul32 ax c, fmul32 ay c, fmul32 az c))"

definition vec_neg :: "fvec3 \<Rightarrow> fvec3" where
  "vec_neg a = (case a of (ax, ay, az) \<Rightarrow> (fneg32 ax, fneg32 ay, fneg32 az))"

text \<open>The fit of a mesh into the preview, from \<^verbatim>\<open>Inspector::showMesh\<close>: the largest
  extent of the bounding box, \<^verbatim>\<open>std::max({scale.x,scale.y,scale.z})\<close>, then the vector
  given to \<^verbatim>\<open>glm::scale\<close>, three times \<^verbatim>\<open>2.0f/maxS\<close>, and the one given to
  \<^verbatim>\<open>glm::translate\<close>.\<close>

definition preview_maxS :: "vec3 \<Rightarrow> vec3 \<Rightarrow> float32" where
  "preview_maxS bounds0 bounds1 =
     (let scale = vec_sub (vec_floats bounds1) (vec_floats bounds0)
      in case scale of (sx, sy, sz) \<Rightarrow> fmax32 (fmax32 sx sy) sz)"

definition preview_fit :: "vec3 \<Rightarrow> vec3 \<Rightarrow> fvec3 \<times> fvec3" where
  "preview_fit bounds0 bounds1 =
     (let center = vec_scale (vec_add (vec_floats bounds1) (vec_floats bounds0)) (Fin 0.5);
          offset = vec_neg center;
          maxS = preview_maxS bounds0 bounds1
      in ((fdiv32 (Fin 2) maxS, fdiv32 (Fin 2) maxS, fdiv32 (Fin 2) maxS), offset))"

text \<open>\<^verbatim>\<open>float rotationSpeed = 0.001f;\<close> and the angle \<^verbatim>\<open>time*rotationSpeed\<close>.\<close>

definition rotationSpeed :: real where
  "rotationSpeed = float_round 0.001"

definition preview_angle :: "real \<Rightarrow> float32" where
  "preview_angle t = fmul32 (Fin t) (Fin rotationSpeed)"

text \<open>The loop \<^verbatim>\<open>for (int m = 0;m<std::max(1,sharedPtrMesh->getIndexSets());m++)\<close> that
  fills \<^verbatim>\<open>mats\<close>.\<close>

function mats_loop :: "int \<Rightarrow> int \<Rightarrow> Material \<Rightarrow> Material list \<Rightarrow> Material list" where
  "mats_loop m bound mat mats =
     (if m < bound then mats_loop (m + 1) bound mat (mats @ [mat]) else mats)"
  by pat_completeness auto
termination
  by (relation "measure (\<lambda>(m, bound, mat, mats). nat (bound - m))") auto

declare mats_loop.simps [simp del]

definition preview_materials :: "Mesh \<Rightarrow> Material list" where
  "preview_materials mesh =
     (let mat = (if hasNormals mesh then LitMaterial else UnlitMaterial)
      in mats_loop 0 (max 1 (indexSets mesh)) mat [])"

text \<open>Modelled from the spec: \<^verbatim>\<open>RenderPass::draw(mesh, transform, materials)\<close> is not among
  the sources. The spec (4.2): the length of \<open>materials\<close> must equal the mesh's index-set
  count, or 1 if the mesh has no index sets; otherwise the draw fails with a
  shape-mismatch error.\<close>

definition RenderPass_draw :: "Mesh \<Rightarrow> Transform \<Rightarrow> Material list \<Rightarrow> error + unit" where
  "RenderPass_draw mesh transform materials =
     (if int (length materials) = (if indexSets mesh = 0 then 1 else indexSets mesh)
      then Inr () else Inl ShapeMismatch)"

text \<open>\<^verbatim>\<open>Inspector::showTexture\<close>: labels and, for a texture that is no cubemap, its
  image; the inspector's state is not touched.\<close>

definition showTexture ::
  "Env \<Rightarrow> nat \<times> Texture \<Rightarrow> Inspector \<Rightarrow> error + (Inspector \<times> ui_event list)" where
  "showTexture env pt s =
     (case pt of (p, tex) \<Rightarrow>
        if treeNode env (texName tex @ ''##'' @ to_string p) then
          Inr (s, if \<not> texCubemap tex then [Image tex] else [])
        else Inr (s, []))"

text \<open>\<^verbatim>\<open>Inspector::showMesh\<close>.\<close>

definition showMesh ::
  "Env \<Rightarrow> nat \<times> Mesh \<Rightarrow> Inspector \<Rightarrow> error + (Inspector \<times> ui_event list)" where
  "showMesh env pm s =
     (case pm of (p, mesh) \<Rightarrow>
        if treeNode env (meshName mesh @ ''##'' @ to_string p) then
          bind_err (initFramebuffer s) (\<lambda>s1.
          bind_err (getTmpTexture s1) (\<lambda>(offscreenTexture, s2).
          bind_err (setTexture s2 offscreenTexture) (\<lambda>s3.
            (let (scale, offset) = preview_fit (boundsMin mesh) (boundsMax mesh);
                 mats = preview_materials mesh;
                 transform = \<lparr>rotationY = preview_angle (time s3), scaling = scale,
                              translation = offset\<rparr>
             in bind_err (RenderPass_draw mesh transform mats) (\<lambda>_.
                  Inr (s3, [Draw (MeshAt p) transform mats offscreenTexture,
                            Image offscreenTexture]))))))
        else Inr (s, []))"

text \<open>\<^verbatim>\<open>Inspector::showShader\<close>. The registry holds a raw pointer, which is dereferenced.
  The preview draws the sphere with one material of the shader, through the overload of
  \<^verbatim>\<open>draw\<close> that takes a single material.\<close>

definition showShader ::
  "Env \<Rightarrow> (shader_ptr \<rightharpoonup> Shader) \<Rightarrow> shader_ptr \<Rightarrow> Inspector
     \<Rightarrow> error + (Inspector \<times> ui_event list)" where
  "showShader env heap p s =
     (case heap p of
        None \<Rightarrow> Inl DanglingPointer
      | Some shader \<Rightarrow>
          if treeNode env (shaderName shader @ ''##'' @ to_string p) then
            (let s0 = (if editButton env p then s\<lparr>shaderEdit := Some p\<rparr> else s)
             in bind_err (initFramebuffer s0) (\<lambda>s1.
                bind_err (getTmpTexture s1) (\<lambda>(offscreenTexture, s2).
                bind_err (setTexture s2 offscreenTexture) (\<lambda>s3.
                  (let transform = \<lparr>rotationY = preview_angle (time s3),
                                    scaling = (Fin 1, Fin 1, Fin 1),
                                    translation = (Fin 0, Fin 0, Fin 0)\<rparr>
                   in Inr (s3, [Draw PreviewSphere transform [ShaderMaterial p] offscreenTexture,
                                Image offscreenTexture]))))))
          else Inr (s, []))"

section \<open>The sections of the registries\<close>

text \<open>\<^verbatim>\<open>for (auto x : registry) show(x);\<close>\<close>

fun show_all ::
  "('a \<Rightarrow> Inspector \<Rightarrow> error + (Inspector \<times> ui_event list)) \<Rightarrow> 'a list \<Rightarrow> Inspector
     \<Rightarrow> error + (Inspector \<times> ui_event list)" where
  "show_all show [] s = Inr (s, [])"
| "show_all show (x # xs) s =
     bind_err (show x s) (\<lambda>(s1, ev1).
     bind_err (show_all show xs s1) (\<lambda>(s2, ev2).
       Inr (s2, ev1 @ ev2)))"

definition gui_shaders ::
  "Env \<Rightarrow> (shader_ptr \<rightharpoonup> Shader) \<Rightarrow> Renderer \<Rightarrow> Inspector
     \<Rightarrow> error + (Inspector \<times> ui_event list)" where
  "gui_shaders env heap r s =
     (if collapsingHeader env ''Shaders'' then
        bind_err (show_all (showShader env heap) (shaders r) s) (\<lambda>(s1, ev).
          Inr (s1, ev @ (if shaders r = [] then [LabelText [] ''No shaders''] else [])))
      else Inr (s, []))"

definition gui_textures ::
  "Env \<Rightarrow> Renderer \<Rightarrow> Inspector \<Rightarrow> error + (Inspector \<times> ui_event list)" where
  "gui_textures env r s =
     (if collapsingHeader env ''Textures'' then
        bind_err (show_all (showTexture env) (textures r) s) (\<lambda>(s1, ev).
          Inr (s1, ev @ (if textures r = [] then [LabelText [] ''No textures''] else [])))
      else Inr (s, []))"

definition gui_meshes ::
  "Env \<Rightarrow> Renderer \<Rightarrow> Inspector \<Rightarrow> error + (Inspector \<times> ui_event list)" where
  "gui_meshes env r s =
     (if collapsingHeader env ''Meshes'' then
        bind_err (show_all (showMesh env) (meshes r) s) (\<lambda>(s1, ev).
          Inr (s1, ev @ (if meshes r = [] then [LabelText [] ''No meshes''] else [])))
      else Inr (s, []))"

section \<open>The shader editor\<close>

text \<open>The function-local statics of \<^verbatim>\<open>Inspector::editShader\<close>, with what the text
  editor holds.\<close>

record EditState =
  shaderRef :: "shader_ptr option"
  shaderCode :: "string list"
  editorText :: string
  editorReadOnly :: bool
  editorPalette :: Palette
  selectedShader :: int
  showPrecompiled :: bool

definition EditState_init :: EditState where
  "EditState_init = \<lparr>shaderRef = None, shaderCode = [], editorText = [],
     editorReadOnly = False, editorPalette = Dark, selectedShader = 0,
     showPrecompiled = False\<rparr>"

text \<open>The first block: another shader than the one of the last call loads its sources.\<close>

definition editShader_load ::
  "Env \<Rightarrow> shader_ptr \<Rightarrow> Shader \<Rightarrow> EditState \<Rightarrow> error + EditState" where
  "editShader_load env p shader e =
     (if shaderRef e \<noteq> Some p then
        (let e1 = e\<lparr>shaderRef := Some p,
                    shaderCode := map (\<lambda>source. getSource env (snd source)) (shaderSources shader),
                    selectedShader := 0\<rparr>
         in bind_err (at_vec (shaderCode e1) (selectedShader e1)) (\<lambda>text.
              Inr (e1\<lparr>editorText := text, editorPalette := Dark, showPrecompiled := False\<rparr>)))
      else Inr e)"

text \<open>The loop over \<^verbatim>\<open>shader->shaderSources\<close> that fills \<^verbatim>\<open>activeShaders\<close>: the two
  last cases of the \<^verbatim>\<open>switch\<close> log an error and add no name.\<close>

fun activeShaders :: "(ShaderType \<times> string) list \<Rightarrow> string list" where
  "activeShaders [] = []"
| "activeShaders ((Vertex, _) # ss) = ''Vertex'' # activeShaders ss"
| "activeShaders ((Fragment, _) # ss) = ''Fragment'' # activeShaders ss"
| "activeShaders ((Geometry, _) # ss) = ''Geometry'' # activeShaders ss"
| "activeShaders ((TessellationControl, _) # ss) = ''TessellationControl'' # activeShaders ss"
| "activeShaders ((TessellationEvaluation, _) # ss) =
     ''TessellationEvaluation'' # activeShaders ss"
| "activeShaders ((NumberOfShaderTypes, _) # ss) = activeShaders ss"

text \<open>The combo and the line after it:
  \<^verbatim>\<open>selectedShader = std::min(selectedShader, (int)activeShaders.size());\<close>\<close>

definition select_shader :: "Env \<Rightarrow> string list \<Rightarrow> EditState \<Rightarrow> bool \<times> EditState" where
  "select_shader env active e =
     (case combo env (selectedShader e) (length active) of
        (updatedShader, chosen) \<Rightarrow>
          (updatedShader, e\<lparr>selectedShader := min chosen (int (length active))\<rparr>))"

text \<open>The loop of the compile button, \<^verbatim>\<open>builder.withSourceString(shaderCode[i], sources[i])\<close>.\<close>

fun compile_sources ::
  "string list \<Rightarrow> ShaderType list \<Rightarrow> nat \<Rightarrow> error + (string \<times> ShaderType) list" where
  "compile_sources code [] i = Inr []"
| "compile_sources code (t # ts) i =
     bind_err (at_vec code (int i)) (\<lambda>c.
     bind_err (compile_sources code ts (Suc i)) (\<lambda>rest.
       Inr ((c, t) # rest)))"

text \<open>\<^verbatim>\<open>Inspector::editShader\<close>. What \<^verbatim>\<open>builder.build()\<close> does to the shader is outside the
  sources: the call is recorded and the store is left as it is.\<close>

definition editShader ::
  "Env \<Rightarrow> shader_ptr \<Rightarrow> Shader \<Rightarrow> Inspector \<times> EditState
     \<Rightarrow> error + ((Inspector \<times> EditState) \<times> ui_event list)" where
  "editShader env p shader se =
     (case se of (s, e0) \<Rightarrow>
      bind_err (editShader_load env p shader e0) (\<lambda>e1.
        (let active = activeShaders (shaderSources shader);
             sources = map fst (shaderSources shader);
             lastSelectedShader = selectedShader e1;
             (updatedShader, e2) = select_shader env active e1;
             (updatedPrecompile, shown) = checkbox env (showPrecompiled e2);
             e3 = e2\<lparr>showPrecompiled := shown\<rparr>;
             e4 = (if updatedPrecompile
                   then e3\<lparr>editorPalette := (if showPrecompiled e3 then Light else Dark)\<rparr>
                   else e3);
             compile = compileButton env
         in bind_err
              (if (compile \<and> \<not> showPrecompiled e4) \<or> (updatedShader \<and> \<not> showPrecompiled e4)
                  \<or> (updatedPrecompile \<and> showPrecompiled e4)
               then bind_err (set_vec (shaderCode e4) lastSelectedShader (editorText e4))
                      (\<lambda>code. Inr (e4\<lparr>shaderCode := code\<rparr>))
               else Inr e4) (\<lambda>e5.
            bind_err
              (if compile
               then bind_err (compile_sources (shaderCode e5) sources 0)
                      (\<lambda>built. Inr [Compile p built])
               else Inr []) (\<lambda>compiled.
            bind_err
              (if updatedShader \<or> updatedPrecompile then
                 bind_err (at_vec (shaderCode e5) (selectedShader e5)) (\<lambda>code.
                   if showPrecompiled e5
                   then Inr (e5\<lparr>editorText := precompile env code, editorReadOnly := True\<rparr>)
                   else Inr (e5\<lparr>editorText := code, editorReadOnly := False\<rparr>))
               else Inr e5) (\<lambda>e6.
              (let e7 = e6\<lparr>editorText := editorInput env (editorText e6)\<rparr>;
                   s1 = (if \<not> windowOpen env then s\<lparr>shaderEdit := None\<rparr> else s)
               in Inr ((s1, e7),
                       [EditorWindow p (shaderName shader)] @ compiled @
                       [EditorRender (editorText e6) (editorReadOnly e6)]))))))))"

text \<open>The end of \<^verbatim>\<open>Inspector::gui\<close>:
  \<^verbatim>\<open>if (auto shaderEditPtr = shaderEdit.lock()) editShader(shaderEditPtr.get());\<close>
  A weak pointer locks to its object while the object is in the store of live shaders.\<close>

definition weak_lock ::
  "(shader_ptr \<rightharpoonup> Shader) \<Rightarrow> shader_ptr option \<Rightarrow> (shader_ptr \<times> Shader) option" where
  "weak_lock heap w =
     (case w of
        None \<Rightarrow> None
      | Some p \<Rightarrow> (case heap p of None \<Rightarrow> None | Some shader \<Rightarrow> Some (p, shader)))"

definition gui_edit ::
  "Env \<Rightarrow> (shader_ptr \<rightharpoonup> Shader) \<Rightarrow> Inspector \<times> EditState
     \<Rightarrow> error + ((Inspector \<times> EditState) \<times> ui_event list)" where
  "gui_edit env heap se =
     (case weak_lock heap (shaderEdit (fst se)) of
        None \<Rightarrow> Inr (se, [])
      | Some (p, shader) \<Rightarrow> editShader env p shader se)"

text \<open>\<^verbatim>\<open>Inspector::gui\<close>: the sections in the order of the source. The window around
  them (\<^verbatim>\<open>useWindow\<close>), the section \<open>Renderer\<close>, which prints versions and window sizes,
  and the sections of the sprite atlases and of the framebuffer objects are not part of
  the model.\<close>

definition gui ::
  "Env \<Rightarrow> (shader_ptr \<rightharpoonup> Shader) \<Rightarrow> Renderer \<Rightarrow> Inspector \<times> EditState
     \<Rightarrow> error + ((Inspector \<times> EditState) \<times> ui_event list)" where
  "gui env heap r se =
     (case se of (s, e) \<Rightarrow>
      bind_err (gui_performance env s) (\<lambda>(s1, ev1).
      bind_err (gui_memory env s1) (\<lambda>(s2, ev2).
      bind_err (gui_shaders env heap r s2) (\<lambda>(s3, ev3).
      bind_err (gui_textures env r s3) (\<lambda>(s4, ev4).
      bind_err (gui_meshes env r s4) (\<lambda>(s5, ev5).
      bind_err (gui_edit env heap (s5, e)) (\<lambda>(se6, ev6).
        Inr (se6, ev1 @ ev2 @ ev3 @ ev4 @ ev5 @ ev6))))))))"

section \<open>Vocabulary of the statements\<close>

text \<open>The last \<open>k\<close> values of a recording.\<close>

definition spec_last :: "nat \<Rightarrow> 'a list \<Rightarrow> 'a list" where
  "spec_last k xs = drop (length xs - k) xs"

text \<open>The mean of the last \<open>min (length vs) n\<close> values of a recording, in float
  arithmetic: their sum from 0, each addition rounded, in the order of recording, divided
  by their number; and 0 while nothing is recorded.\<close>

definition spec_float_sum :: "real list \<Rightarrow> float32" where
  "spec_float_sum vs = foldl (\<lambda>a v. fadd32 a (Fin v)) (Fin 0) vs"

definition spec_float_mean :: "nat \<Rightarrow> real list \<Rightarrow> float32" where
  "spec_float_mean n vs =
     (if vs = [] then Fin 0
      else fdiv32 (spec_float_sum (spec_last (min (length vs) n) vs))
             (Fin (float_round (real (min (length vs) n)))))"

text \<open>The counters of a frame are values of \<^verbatim>\<open>int\<close>, and so is the sum of the state
  changes; a frame time is a value of \<^verbatim>\<open>float\<close>.\<close>

definition is_int32 :: "int \<Rightarrow> bool" where
  "is_int32 v \<longleftrightarrow> INT_MIN \<le> v \<and> v \<le> INT_MAX"

definition RenderStats_ok :: "RenderStats \<Rightarrow> bool" where
  "RenderStats_ok r \<longleftrightarrow>
     is_int32 (drawCalls r) \<and> is_int32 (stateChangesShader r) \<and>
     is_int32 (stateChangesMaterial r) \<and> is_int32 (stateChangesMesh r) \<and>
     is_int32 (meshBytes r) \<and> is_int32 (textureBytes r) \<and>
     is_int32 (stateChangesShader r + stateChangesMaterial r) \<and>
     is_int32 (stateChangesShader r + stateChangesMaterial r + stateChangesMesh r)"



text \<open>The value read for display position \<open>k\<close>: slot \<open>(fc + k) mod n\<close> of a series \<open>g\<close>.\<close>

definition shown :: "int \<Rightarrow> int \<Rightarrow> (int \<Rightarrow> real) \<Rightarrow> nat \<Rightarrow> real" where
  "shown fc n g k = g ((fc + int k) mod n)"

text \<open>A buffer \<open>b\<close> of \<open>n\<close> slots holds the recording \<open>vs\<close>: value \<open>k\<close> is in slot
  \<open>k mod n\<close> unless a later one replaced it, and a slot never written holds \<open>z\<close>.\<close>

definition ring_inv :: "nat \<Rightarrow> 'a list \<Rightarrow> 'a list \<Rightarrow> 'a \<Rightarrow> bool" where
  "ring_inv n b vs z \<longleftrightarrow>
     length b = n \<and>
     (\<forall>k < length vs. length vs \<le> k + n \<longrightarrow> b ! (k mod n) = vs ! k) \<and>
     (\<forall>j < n. length vs \<le> j \<longrightarrow> b ! j = z) \<and>
     (\<forall>j < n. b ! j = z \<or> b ! j \<in> set vs)"

text \<open>The inspector \<open>s\<close> holds the frames \<open>fs\<close> recorded since its construction at
  clock value \<open>now\<close>.\<close>

definition recorded :: "int \<Rightarrow> real \<Rightarrow> (real \<times> RenderStats) list \<Rightarrow> Inspector \<Rightarrow> bool" where
  "recorded n now fs s \<longleftrightarrow>
     frames s = n \<and> frameCount s = int (length fs) \<and> length (data s) = nat n \<and>
     ring_inv (nat n) (milliseconds s) (deltas now (map fst fs)) 0 \<and>
     ring_inv (nat n) (stats s) (map snd fs) RenderStats_zero"

text \<open>An interface in which every header and every tree node is open and the user
  touches nothing; and three recorded frames, for the examples.\<close>

definition env_idle :: Env where
  "env_idle = \<lparr>collapsingHeader = (\<lambda>_. True), treeNode = (\<lambda>_. True),
     editButton = (\<lambda>_. False), combo = (\<lambda>current count. (False, current)),
     checkbox = (\<lambda>b. (False, b)), compileButton = False, windowOpen = True,
     editorInput = (\<lambda>t. t), getSource = (\<lambda>name. name), precompile = (\<lambda>code. code)\<rparr>"

definition example_frames :: "(real \<times> RenderStats) list" where
  "example_frames =
     [(1, RenderStats_zero\<lparr>drawCalls := 4\<rparr>),
      (3, RenderStats_zero\<lparr>drawCalls := 8\<rparr>),
      (6, RenderStats_zero\<lparr>drawCalls := 6\<rparr>)]"

text \<open>The number of textures that \<open>m\<close> requests add to the pool.\<close>

definition new_textures :: "nat \<Rightarrow> Inspector \<Rightarrow> nat option" where
  "new_textures m s =
     (case getTmpTextures m s of
        Inl e \<Rightarrow> None
      | Inr (texs, s') \<Rightarrow> Some (length (offscreenTextures s') - length (offscreenTextures s)))"

text \<open>An inspector at the start of a frame whose pool holds one texture.\<close>

definition pool_one :: Inspector where
  "pool_one =
     \<lparr>frames = 1, frameCount = 1, stats = [RenderStats_zero], milliseconds = [1], data = [0],
      lastTick = 1, time = 1, usedTextures = 0, offscreenTextures = [scratch_texture 0],
      framebuffer =
        Some \<lparr>fbName = ''SRE Inspector Framebufferobject'', fbTexture = scratch_texture 0\<rparr>,
      worldLights = \<lparr>ambientLight = (0.2, 0.2, 0.2), pointLights = [(0, 0, 4)]\<rparr>,
      shaderEdit = None\<rparr>"

text \<open>A shader with a vertex and a fragment source, alone in the store at address 1; an
  interface whose combo answers with a chosen index.\<close>

definition example_shader :: Shader where
  "example_shader =
     \<lparr>shaderName = ''unlit'',
      shaderSources = [(Vertex, ''unlit_vert.glsl''), (Fragment, ''unlit_frag.glsl'')]\<rparr>"

definition example_heap :: "shader_ptr \<rightharpoonup> Shader" where
  "example_heap = [1 \<mapsto> example_shader]"

definition env_choose :: "int \<Rightarrow> Env" where
  "env_choose k = env_idle\<lparr>combo := (\<lambda>current count. (True, k))\<rparr>"

text \<open>A mesh with three index sets and the bounding box of the example, and an inspector
  whose edit view is open on the shader at address 1.\<close>

definition example_mesh :: Mesh where
  "example_mesh = \<lparr>meshName = ''quad'', indexSets = 3, hasNormals = True,
     boundsMin = (- 2, - 1, - 1), boundsMax = (2, 1, 1)\<rparr>"

definition editing_one :: Inspector where
  "editing_one = pool_one\<lparr>shaderEdit := Some 1\<rparr>"

definition no_objects :: Renderer where
  "no_objects = \<lparr>shaders = [], textures = [], meshes = []\<rparr>"






section \<open>Checked arithmetic on the index expressions\<close>

lemma bind_err_Inr [simp]: "bind_err (Inr x) f = f x"
  by (simp add: bind_err_def)

lemma bind_err_Inl [simp]: "bind_err (Inl e) f = Inl e"
  by (simp add: bind_err_def)

lemma int_result_ok: "INT_MIN \<le> v \<Longrightarrow> v \<le> INT_MAX \<Longrightarrow> int_result v = Inr v"
  by (simp add: int_result_def)

lemma int_mod_nonneg:
  assumes "0 \<le> a" "a \<le> INT_MAX" "0 < b"
  shows "int_mod a b = Inr (a mod b)"
proof -
  have "a sdiv b \<in> {- \<bar>a\<bar>..\<bar>a\<bar>}" by (rule sdiv_int_range)
  with assms have "INT_MIN \<le> a sdiv b" "a sdiv b \<le> INT_MAX"
    by (auto simp: INT_MIN_def INT_MAX_def)
  moreover have "a smod b = a mod b"
    using assms by (simp add: smod_mod_positive)
  ultimately show ?thesis
    using assms by (simp add: int_mod_def int_result_ok)
qed

lemma int_mod_neg:
  assumes "0 \<le> a" "a \<le> INT_MAX" "0 < b"
  shows "int_mod (- a) b = Inr (- (a mod b))"
proof -
  have "a sdiv b \<in> {- \<bar>a\<bar>..\<bar>a\<bar>}" by (rule sdiv_int_range)
  with assms have "INT_MIN \<le> - (a sdiv b)" "- (a sdiv b) \<le> INT_MAX"
    by (auto simp: INT_MIN_def INT_MAX_def)
  moreover have "a smod b = a mod b"
    using assms by (simp add: smod_mod_positive)
  ultimately show ?thesis
    using assms by (simp add: int_mod_def int_result_ok)
qed

lemma read_index_ok:
  assumes "0 < n" "0 \<le> fc" "0 \<le> i" "fc + i \<le> INT_MAX"
  shows "read_index fc n i = Inr ((fc + i) mod n)"
  using assms by (simp add: read_index_def int_add_def int_result_ok int_mod_nonneg INT_MIN_def)

lemma display_index_ok:
  assumes "0 < n" "0 \<le> fc" "0 \<le> i" "i < n" "fc + i \<le> INT_MAX" "i + n \<le> INT_MAX"
  shows "display_index fc n ((fc + i) mod n) = Inr i"
proof -
  define r where "r = fc mod n"
  define idx where "idx = (fc + i) mod n"
  have r: "0 \<le> r" "r < n" using assms by (simp_all add: r_def)
  have idx: "idx = (if r + i < n then r + i else r + i - n)"
  proof -
    have *: "idx = (r + i) mod n" by (simp add: idx_def r_def mod_add_left_eq)
    show ?thesis
    proof (cases "r + i < n")
      case True
      then show ?thesis using r assms * by simp
    next
      case False
      have "(r + i - n) mod n = r + i - n"
        using False r assms by (intro mod_pos_pos_trivial) simp_all
      then have "(r + i) mod n = r + i - n"
        by (simp only: minus_mod_self2)
      then show ?thesis using False * by simp
    qed
  qed
  have fcle: "fc \<le> INT_MAX" using assms by simp
  have 1: "int_neg fc = Inr (- fc)"
    using assms fcle by (simp add: int_neg_def int_result_ok INT_MIN_def INT_MAX_def)
  have 2: "int_mod (- fc) n = Inr (- r)"
    using assms fcle by (simp add: int_mod_neg r_def)
  have 3: "int_add (- r) idx = Inr (idx - r)"
    using r idx assms by (simp add: int_add_def int_result_ok INT_MIN_def INT_MAX_def)
  have 4: "int_add (idx - r) n = Inr (idx - r + n)"
    using r idx assms by (simp add: int_add_def int_result_ok INT_MIN_def INT_MAX_def)
  have 5: "int_mod (idx - r + n) n = Inr i"
  proof (cases "r + i < n")
    case True
    then have "idx - r + n = i + n" using idx by simp
    moreover have "int_mod (i + n) n = Inr ((i + n) mod n)"
      using assms by (intro int_mod_nonneg) simp_all
    ultimately show ?thesis using assms by simp
  next
    case False
    then have "idx - r + n = i" using idx by simp
    moreover have "int_mod i n = Inr (i mod n)"
      using assms by (intro int_mod_nonneg) simp_all
    ultimately show ?thesis using assms by simp
  qed
  show ?thesis
    unfolding display_index_def idx_def [symmetric]
    by (simp add: 1 2 3 4 5)
qed

section \<open>The display loop\<close>

lemma plot_loop_result:
  assumes n: "0 < n" and fc: "0 \<le> fc" and r1: "fc + n \<le> INT_MAX + 1" and r2: "2 * n \<le> INT_MAX + 1"
    and sample: "\<And>j. 0 \<le> j \<Longrightarrow> j < n \<Longrightarrow> sample j = Inr (g j)"
  shows "0 \<le> i \<Longrightarrow> i \<le> n \<Longrightarrow> length d = nat n \<Longrightarrow>
     plot_loop i n fc sample (d, mx, sm) =
       Inr (take (nat i) d @ map (shown fc n g) [nat i..<nat n],
            foldl max mx (map (shown fc n g) [nat i..<nat n]),
            foldl (\<lambda>a v. fadd32 a (Fin v)) sm (map (shown fc n g) [nat i..<nat n]))"
proof (induction "nat (n - i)" arbitrary: i d mx sm)
  case 0
  then have "i = n" by simp
  with 0 show ?case by (simp add: plot_loop.simps)
next
  case (Suc m)
  then have lt: "i < n" by simp
  define idx where "idx = (fc + i) mod n"
  have idx: "0 \<le> idx" "idx < n" using n by (simp_all add: idx_def)
  have a: "read_index fc n i = Inr idx"
    unfolding idx_def using n fc Suc.prems lt r1 by (intro read_index_ok) simp_all
  have b: "sample idx = Inr (g idx)" using idx by (rule sample)
  have c: "display_index fc n idx = Inr i"
    unfolding idx_def using n fc Suc.prems lt r1 r2 by (intro display_index_ok) simp_all
  have e: "set_vec d i (g idx) = Inr (d[nat i := g idx])"
    using Suc.prems lt by (simp add: set_vec_def)
  have m: "m = nat (n - (i + 1))" using Suc.hyps(2) by simp
  have sh: "shown fc n g (nat i) = g idx"
    using Suc.prems by (simp add: shown_def idx_def)
  have up: "[nat i..<nat n] = nat i # [nat (i + 1)..<nat n]"
    using lt Suc.prems by (simp add: upt_conv_Cons nat_add_distrib)
  have tk: "take (nat (i + 1)) (d[nat i := g idx]) = take (nat i) d @ [g idx]"
  proof -
    have "nat (i + 1) = Suc (nat i)" using Suc.prems by simp
    moreover have "nat i < length (d[nat i := g idx])" using Suc.prems lt by simp
    ultimately show ?thesis by (simp add: take_Suc_conv_app_nth)
  qed
  have IH: "plot_loop (i + 1) n fc sample
       (d[nat i := g idx], max mx (g idx), fadd32 sm (Fin (g idx))) =
       Inr (take (nat (i + 1)) (d[nat i := g idx]) @ map (shown fc n g) [nat (i + 1)..<nat n],
            foldl max (max mx (g idx)) (map (shown fc n g) [nat (i + 1)..<nat n]),
            foldl (\<lambda>a v. fadd32 a (Fin v)) (fadd32 sm (Fin (g idx)))
              (map (shown fc n g) [nat (i + 1)..<nat n]))"
    using Suc.prems lt by (intro Suc.hyps(1) m) simp_all
  have "plot_loop i n fc sample (d, mx, sm) =
          plot_loop (i + 1) n fc sample
            (d[nat i := g idx], max mx (g idx), fadd32 sm (Fin (g idx)))"
    using lt by (subst plot_loop.simps) (simp add: a b c e)
  also note IH
  finally show ?case by (simp add: tk up sh)
qed

text \<open>The values in the order in which the loop reads them: the slots never written
  first, then the last recorded values, oldest first.\<close>

lemma shown_row:
  assumes n: "0 < n" and ring: "ring_inv (nat n) b vs z"
  shows "map (shown (int (length vs)) n (\<lambda>j. h (b ! nat j))) [0..<nat n] =
         replicate (nat n - min (length vs) (nat n)) (h z) @
         map h (spec_last (min (length vs) (nat n)) vs)"
proof (rule nth_equalityI)
  show "length (map (shown (int (length vs)) n (\<lambda>j. h (b ! nat j))) [0..<nat n]) =
        length (replicate (nat n - min (length vs) (nat n)) (h z) @
          map h (spec_last (min (length vs) (nat n)) vs))"
    by (auto simp: spec_last_def)
next
  fix k assume "k < length (map (shown (int (length vs)) n (\<lambda>j. h (b ! nat j))) [0..<nat n])"
  then have k: "k < nat n" by simp
  define N where "N = nat n"
  define f where "f = length vs"
  have N: "0 < N" "k < N" using n k by (simp_all add: N_def)
  have inv: "\<And>i. i < f \<Longrightarrow> f \<le> i + N \<Longrightarrow> b ! (i mod N) = vs ! i"
    "\<And>j. j < N \<Longrightarrow> f \<le> j \<Longrightarrow> b ! j = z"
    using ring by (simp_all add: ring_inv_def N_def f_def)
  have idx: "nat ((int f + int k) mod n) = (f + k) mod N"
    using n by (simp add: N_def nat_mod_distrib nat_add_distrib)
  have lhs: "map (shown (int f) n (\<lambda>j. h (b ! nat j))) [0..<N] ! k = h (b ! ((f + k) mod N))"
    using N by (simp add: shown_def idx)
  have rhs: "(replicate (N - min f N) (h z) @ map h (spec_last (min f N) vs)) ! k =
      h (b ! ((f + k) mod N))"
  proof (cases "f < N")
    case True
    note fN = True
    show ?thesis
    proof (cases "k < N - f")
      case True
      then have "(f + k) mod N = f + k" by simp
      moreover have "b ! (f + k) = z" using True inv(2) [of "f + k"] by simp
      ultimately show ?thesis using True fN by (simp add: nth_append min_def)
    next
      case False
      define j where "j = f + k - N"
      have j: "j < f" "f + k = j + N" using False N fN by (simp_all add: j_def)
      have "(f + k) mod N = j" using j fN by simp
      moreover have "b ! (j mod N) = vs ! j" using j N by (intro inv(1)) simp_all
      moreover have "j mod N = j" using j fN by simp
      moreover have "k - (N - f) = j" using False fN by (simp add: j_def)
      ultimately show ?thesis
        using False fN j by (simp add: nth_append min_def spec_last_def f_def)
    qed
  next
    case False
    define j where "j = f - N + k"
    have j: "j < f" "f \<le> j + N" "f + k = j + N" using False N by (simp_all add: j_def)
    have "(f + k) mod N = j mod N" using j by simp
    moreover have "b ! (j mod N) = vs ! j" using j by (intro inv(1))
    ultimately show ?thesis
      using False N j by (simp add: min_def spec_last_def f_def j_def)
  qed
  from lhs rhs
  show "map (shown (int (length vs)) n (\<lambda>j. h (b ! nat j))) [0..<nat n] ! k =
        (replicate (nat n - min (length vs) (nat n)) (h z) @
          map h (spec_last (min (length vs) (nat n)) vs)) ! k"
    by (simp add: N_def f_def)
qed

section \<open>The ring buffer under update\<close>

lemma updates_snoc:
  "updates s (fs @ [(tick, rs)]) = bind_err (updates s fs) (\<lambda>s'. update s' tick rs)"
proof (induction fs arbitrary: s)
  case Nil
  show ?case by (simp add: bind_err_def split: sum.splits)
next
  case (Cons x fs)
  obtain t r where x: "x = (t, r)" by (cases x)
  show ?case
    by (cases "update s t r") (simp_all add: x Cons.IH)
qed

lemma deltas_snoc: "deltas l (ts @ [t]) = deltas l ts @ [t - last (l # ts)]"
  by (induction ts arbitrary: l) simp_all

lemma length_deltas [simp]: "length (deltas l ts) = length ts"
  by (induction ts arbitrary: l) simp_all

lemma update_ok:
  assumes "0 < frames s" "0 \<le> frameCount s" "frameCount s < INT_MAX"
    "length (stats s) = nat (frames s)" "length (milliseconds s) = nat (frames s)"
  shows "update s tick rs =
    Inr (s\<lparr>usedTextures := 0, time := time s + (tick - lastTick s), lastTick := tick,
           stats := (stats s)[nat (frameCount s mod frames s) := rs],
           milliseconds := (milliseconds s)[nat (frameCount s mod frames s) := tick - lastTick s],
           frameCount := frameCount s + 1\<rparr>)"
proof -
  have m: "int_mod (frameCount s) (frames s) = Inr (frameCount s mod frames s)"
    using assms by (intro int_mod_nonneg) simp_all
  have b: "0 \<le> frameCount s mod frames s" "frameCount s mod frames s < frames s"
    using assms by simp_all
  have a: "int_add (frameCount s) 1 = Inr (frameCount s + 1)"
    using assms by (simp add: int_add_def int_result_ok INT_MIN_def)
  show ?thesis
    using assms b by (simp add: update_def Let_def m a set_vec_def)
qed

lemma ring_inv_init: "ring_inv n (replicate n z) [] z"
  by (simp add: ring_inv_def)

lemma mod_neq_of_close:
  fixes k f n :: nat
  assumes "k < f" "f < k + n"
  shows "k mod n \<noteq> f mod n"
proof
  assume eq: "k mod n = f mod n"
  have "(f - k) mod n = 0"
    using assms eq by (metis mod_eq_dvd_iff_nat dvd_imp_mod_0 less_imp_le_nat)
  moreover have "0 < f - k" "f - k < n" using assms by simp_all
  ultimately show False by simp
qed

lemma ring_inv_step:
  assumes n: "0 < n" and inv: "ring_inv n b vs z"
  shows "ring_inv n (b[length vs mod n := v]) (vs @ [v]) z"
  unfolding ring_inv_def
proof (intro conjI allI impI)
  show "length (b[length vs mod n := v]) = n" using inv by (simp add: ring_inv_def)
next
  fix k assume k: "k < length (vs @ [v])" and w: "length (vs @ [v]) \<le> k + n"
  have len: "length b = n" using inv by (simp add: ring_inv_def)
  show "b[length vs mod n := v] ! (k mod n) = (vs @ [v]) ! k"
  proof (cases "k = length vs")
    case True
    then show ?thesis using n len by simp
  next
    case False
    then have kl: "k < length vs" using k by simp
    have "k mod n \<noteq> length vs mod n"
      using kl w by (intro mod_neq_of_close) simp_all
    moreover have "b ! (k mod n) = vs ! k"
      using inv kl w by (simp add: ring_inv_def)
    ultimately show ?thesis using kl by (simp add: nth_append)
  qed
next
  fix j assume j: "j < n" and w: "length (vs @ [v]) \<le> j"
  have "length vs mod n = length vs" using j w by simp
  then have "j \<noteq> length vs mod n" using w by simp
  moreover have "b ! j = z" using inv j w by (simp add: ring_inv_def)
  ultimately show "b[length vs mod n := v] ! j = z" by simp
next
  fix j assume j: "j < n"
  have len: "length b = n" using inv by (simp add: ring_inv_def)
  show "b[length vs mod n := v] ! j = z \<or> b[length vs mod n := v] ! j \<in> set (vs @ [v])"
  proof (cases "j = length vs mod n")
    case True
    then show ?thesis using j len by simp
  next
    case False
    moreover have "b ! j = z \<or> b ! j \<in> set vs" using inv j by (simp add: ring_inv_def)
    ultimately show ?thesis by auto
  qed
qed

lemma Inspector_new_ok:
  assumes "0 \<le> n"
  shows "Inspector_new n now =
     Inr \<lparr>frames = n, frameCount = 0, stats = replicate (nat n) RenderStats_zero,
          milliseconds = replicate (nat n) 0, data = replicate (nat n) 0,
          lastTick = now, time = 0, usedTextures = 0, offscreenTextures = [],
          framebuffer = None,
          worldLights = \<lparr>ambientLight = (0, 0, 0), pointLights = []\<rparr>,
          shaderEdit = None\<rparr>"
  using assms by (simp add: Inspector_new_def resize_vec_def)

lemma run_frames_inv:
  assumes n: "0 < n"
  shows "int (length fs) \<le> INT_MAX \<Longrightarrow>
    \<exists>s. run_frames n now fs = Inr s \<and> frames s = n \<and> frameCount s = int (length fs) \<and>
      lastTick s = last (now # map fst fs) \<and> length (data s) = nat n \<and>
      ring_inv (nat n) (milliseconds s) (deltas now (map fst fs)) 0 \<and>
      ring_inv (nat n) (stats s) (map snd fs) RenderStats_zero"
proof (induction fs rule: rev_induct)
  case Nil
  show ?case using n by (simp add: run_frames_def Inspector_new_ok ring_inv_init)
next
  case (snoc x fs)
  obtain tick rs where x: "x = (tick, rs)" by (cases x)
  from snoc.prems have le: "int (length fs) < INT_MAX" by simp
  with snoc.IH obtain s where s: "run_frames n now fs = Inr s" "frames s = n"
      "frameCount s = int (length fs)" "lastTick s = last (now # map fst fs)"
      "length (data s) = nat n"
      "ring_inv (nat n) (milliseconds s) (deltas now (map fst fs)) 0"
      "ring_inv (nat n) (stats s) (map snd fs) RenderStats_zero"
    by auto
  have lens: "length (stats s) = nat (frames s)" "length (milliseconds s) = nat (frames s)"
    using s by (simp_all add: ring_inv_def)
  define s' where "s' = s\<lparr>usedTextures := 0, time := time s + (tick - lastTick s), lastTick := tick,
           stats := (stats s)[nat (frameCount s mod frames s) := rs],
           milliseconds := (milliseconds s)[nat (frameCount s mod frames s) := tick - lastTick s],
           frameCount := frameCount s + 1\<rparr>"
  have u: "update s tick rs = Inr s'"
    unfolding s'_def using n s le lens by (intro update_ok) simp_all
  have slot: "nat (frameCount s mod frames s) = length fs mod nat n"
    using s n by (simp add: nat_mod_distrib)
  have "run_frames n now (fs @ [x]) = Inr s'"
  proof -
    obtain s0 where s0: "Inspector_new n now = Inr s0" "updates s0 fs = Inr s"
      using s(1) by (auto simp: run_frames_def bind_err_def split: sum.splits)
    then show ?thesis by (simp add: run_frames_def x updates_snoc u)
  qed
  moreover have "ring_inv (nat n) (milliseconds s') (deltas now (map fst (fs @ [x]))) 0"
    using ring_inv_step [OF _ s(6), of "tick - lastTick s"] n s(4)
    by (simp add: s'_def slot x deltas_snoc)
  moreover have "ring_inv (nat n) (stats s') (map snd (fs @ [x])) RenderStats_zero"
    using ring_inv_step [OF _ s(7), of rs] n
    by (simp add: s'_def slot x)
  ultimately show ?case using s by (simp add: s'_def x)
qed

section \<open>The running average of a series\<close>

lemma length_spec_last: "length (spec_last k xs) = min k (length xs)"
  by (auto simp: spec_last_def)

lemma spec_last_map: "spec_last k (map h xs) = map h (spec_last k xs)"
  by (simp add: spec_last_def drop_map)

lemma float_round_0 [simp]: "float_round 0 = 0"
  by (simp add: float_round_def)

lemma round32_0 [simp]: "round32 0 = Fin 0"
  by (simp add: round32_def)

text \<open>Adding the zeros of the slots never written changes nothing.\<close>

lemma float_sum_zeros:
  "foldl (\<lambda>a v. fadd32 a (Fin v)) (Fin 0) (replicate k 0) = Fin 0"
  by (induction k) simp_all

lemma plot_series_avg:
  fixes h :: "'a \<Rightarrow> real"
  assumes s: "frames s = n" "frameCount s = int (length vs)" "length (data s) = nat n"
    and n: "0 < n" and r2: "2 * n \<le> INT_MAX + 1" and r1: "int (length vs) + n \<le> INT_MAX + 1"
    and sample: "\<And>j. 0 \<le> j \<Longrightarrow> j < n \<Longrightarrow> sample j = Inr (h (b ! nat j))"
    and ring: "ring_inv (nat n) b vs z" and hz: "h z = 0"
  shows "\<exists>d mx. plot_series s sample =
           Inr (s\<lparr>data := d\<rparr>, spec_float_mean (nat n) (map h vs), mx) \<and>
           length d = nat n"
proof -
  define f where "f = length vs"
  define g where "g = (\<lambda>j. h (b ! nat j))"
  define row where "row = map (shown (int f) n g) [0..<nat n]"
  have "plot_loop 0 n (int f) sample (data s, 0, Fin 0) =
      Inr (take (nat 0) (data s) @ map (shown (int f) n g) [nat 0..<nat n],
           foldl max 0 (map (shown (int f) n g) [nat 0..<nat n]),
           foldl (\<lambda>a v. fadd32 a (Fin v)) (Fin 0) (map (shown (int f) n g) [nat 0..<nat n]))"
    using n r1 r2 s(3) sample
    by (intro plot_loop_result) (simp_all add: g_def f_def)
  then have loop: "plot_loop 0 n (int f) sample (data s, 0, Fin 0) =
      Inr (row, foldl max 0 row, foldl (\<lambda>a v. fadd32 a (Fin v)) (Fin 0) row)"
    by (simp add: row_def)
  have "row = replicate (nat n - min f (nat n)) (h z) @ map h (spec_last (min f (nat n)) vs)"
    unfolding row_def g_def f_def using n ring by (rule shown_row)
  then have sum: "foldl (\<lambda>a v. fadd32 a (Fin v)) (Fin 0) row =
      spec_float_sum (spec_last (min f (nat n)) (map h vs))"
    by (simp add: hz float_sum_zeros spec_float_sum_def spec_last_map)
  have avg: "running_avg (int f) n (foldl (\<lambda>a v. fadd32 a (Fin v)) (Fin 0) row) =
      spec_float_mean (nat n) (map h vs)"
  proof (cases "f = 0")
    case True
    then show ?thesis by (simp add: running_avg_def spec_float_mean_def f_def)
  next
    case False
    have "real_of_int (min (int f) n) = real (min f (nat n))"
      using n by (auto simp: min_def)
    then show ?thesis
      using False by (simp add: running_avg_def spec_float_mean_def sum f_def float_of_int_def)
  qed
  have "plot_series s sample =
      Inr (s\<lparr>data := row\<rparr>, spec_float_mean (nat n) (map h vs), foldl max 0 row)"
    by (simp add: plot_series_def s loop avg f_def [symmetric])
  moreover have "length row = nat n" by (simp add: row_def)
  ultimately show ?thesis by blast
qed

lemma sample_milliseconds_ok:
  "length (milliseconds s) = nat n \<Longrightarrow> 0 \<le> j \<Longrightarrow> j < n \<Longrightarrow>
     sample_milliseconds s j = Inr (milliseconds s ! nat j)"
  by (simp add: sample_milliseconds_def at_vec_def)

lemma sample_stats_ok:
  "length (stats s) = nat n \<Longrightarrow> 0 \<le> j \<Longrightarrow> j < n \<Longrightarrow>
     sample_stats s h j = h (stats s ! nat j)"
  by (simp add: sample_stats_def at_vec_def)

lemma sample_data_update [simp]:
  "sample_milliseconds (s\<lparr>data := d\<rparr>) = sample_milliseconds s"
  "sample_stats (s\<lparr>data := d\<rparr>) h = sample_stats s h"
  by (simp_all add: sample_milliseconds_def sample_stats_def fun_eq_iff)

section \<open>Claims on recording and display\<close>

text \<open>Claim C7. A call of \<open>update\<close> takes the time since the call before, stores the
  statistics and that time at slot \<open>frameCount mod frames\<close>, then adds one to \<open>frameCount\<close>:
  after \<open>f\<close> calls on a new inspector of \<open>n > 0\<close> slots the count is \<open>f\<close>, and the next call,
  the \<open>f\<close>-th counted from 0, writes slot \<open>f mod n\<close> of both buffers and leaves the count
  at \<open>f + 1\<close>. The count stays below the largest \<^verbatim>\<open>int\<close>.\<close>

theorem update_writes_slot_then_increments:
  assumes "0 < n" and "int (length fs) < INT_MAX"
  shows "\<exists>s. run_frames n now fs = Inr s \<and> frameCount s = int (length fs) \<and>
           lastTick s = last (now # map fst fs) \<and>
           length fs mod nat n < length (stats s) \<and>
           length fs mod nat n < length (milliseconds s) \<and>
           update s tick rs =
             Inr (s\<lparr>usedTextures := 0, time := time s + (tick - lastTick s), lastTick := tick,
                    stats := (stats s)[length fs mod nat n := rs],
                    milliseconds := (milliseconds s)[length fs mod nat n := tick - lastTick s],
                    frameCount := int (length fs) + 1\<rparr>)"
proof -
  from assms obtain s where s: "run_frames n now fs = Inr s" "frames s = n"
      "frameCount s = int (length fs)" "lastTick s = last (now # map fst fs)"
      "ring_inv (nat n) (milliseconds s) (deltas now (map fst fs)) 0"
      "ring_inv (nat n) (stats s) (map snd fs) RenderStats_zero"
    using run_frames_inv [of n fs now] by auto
  have lens: "length (stats s) = nat (frames s)" "length (milliseconds s) = nat (frames s)"
    using s by (simp_all add: ring_inv_def)
  have slot: "nat (int (length fs) mod n) = length fs mod nat n"
    using assms by (simp add: nat_mod_distrib)
  have "update s tick rs =
    Inr (s\<lparr>usedTextures := 0, time := time s + (tick - lastTick s), lastTick := tick,
           stats := (stats s)[nat (frameCount s mod frames s) := rs],
           milliseconds := (milliseconds s)[nat (frameCount s mod frames s) := tick - lastTick s],
           frameCount := frameCount s + 1\<rparr>)"
    using assms s lens by (intro update_ok) simp_all
  then have "update s tick rs =
             Inr (s\<lparr>usedTextures := 0, time := time s + (tick - lastTick s), lastTick := tick,
                    stats := (stats s)[length fs mod nat n := rs],
                    milliseconds := (milliseconds s)[length fs mod nat n := tick - lastTick s],
                    frameCount := int (length fs) + 1\<rparr>)"
    by (simp only: s(2,3) slot)
  moreover have "length fs mod nat n < length (stats s)" "length fs mod nat n < length (milliseconds s)"
    using lens s assms by simp_all
  ultimately show ?thesis using s by blast
qed

theorem update_writes_slot_then_increments_witness:
  "((0::int) < 2 \<and> int (length example_frames) < INT_MAX) \<and>
   (\<exists>s. run_frames 2 0 example_frames = Inr s \<and> frameCount s = 3 \<and> lastTick s = 6 \<and>
      1 < length (stats s) \<and> 1 < length (milliseconds s) \<and>
      update s 10 RenderStats_zero =
        Inr (s\<lparr>usedTextures := 0, time := time s + (10 - lastTick s), lastTick := 10,
               stats := (stats s)[1 := RenderStats_zero],
               milliseconds := (milliseconds s)[1 := 10 - lastTick s],
               frameCount := 3 + 1\<rparr>))"
proof -
  have h: "(0::int) < 2 \<and> int (length example_frames) < INT_MAX"
    by (simp add: INT_MAX_def example_frames_def)
  have e: "length example_frames mod nat 2 = 1" "int (length example_frames) = 3"
    "last (0 # map fst example_frames) = 6"
    by (simp_all add: example_frames_def)
  have "\<exists>s. run_frames 2 0 example_frames = Inr s \<and> frameCount s = 3 \<and> lastTick s = 6 \<and>
      1 < length (stats s) \<and> 1 < length (milliseconds s) \<and>
      update s 10 RenderStats_zero =
        Inr (s\<lparr>usedTextures := 0, time := time s + (10 - lastTick s), lastTick := 10,
               stats := (stats s)[1 := RenderStats_zero],
               milliseconds := (milliseconds s)[1 := 10 - lastTick s],
               frameCount := 3 + 1\<rparr>)"
    using h update_writes_slot_then_increments [of 2 example_frames 0 10 RenderStats_zero]
    by (simp only: e)
  with h show ?thesis by blast
qed

text \<open>Claim C2. For \<open>frames = n > 0\<close>, a frame count \<open>fc \<ge> 0\<close> and \<open>0 \<le> i < n\<close>, the slot read
  in round \<open>i\<close> of the display loop is \<open>idx = (fc + i) mod n\<close>, and the position it is written
  to, \<^verbatim>\<open>(-frameCount%frames+idx+frames)%frames\<close>, is \<open>i\<close>: the display buffer is in the order
  of recording, oldest slot first. The sums \<open>fc + i\<close> and \<open>i + n\<close> fit an \<^verbatim>\<open>int\<close>.\<close>

theorem display_index_is_position:
  assumes "0 < n" and "0 \<le> fc" and "0 \<le> i" and "i < n"
    and "fc + i \<le> INT_MAX" and "i + n \<le> INT_MAX"
  shows "read_index fc n i = Inr ((fc + i) mod n) \<and>
         bind_err (read_index fc n i) (display_index fc n) = Inr i"
  using assms by (simp add: read_index_ok display_index_ok)

theorem display_index_is_position_witness:
  "((0::int) < 3 \<and> (0::int) \<le> 7 \<and> (0::int) \<le> 2 \<and> (2::int) < 3 \<and> 7 + 2 \<le> INT_MAX \<and>
    2 + 3 \<le> INT_MAX) \<and>
   read_index 7 3 2 = Inr 0 \<and> display_index 7 3 0 = Inr 2"
proof -
  have h: "(0::int) < 3 \<and> (0::int) \<le> 7 \<and> (0::int) \<le> 2 \<and> (2::int) < 3 \<and> 7 + 2 \<le> INT_MAX \<and>
    2 + 3 \<le> INT_MAX"
    by (simp add: INT_MAX_def)
  from h display_index_is_position [of 3 7 2]
  have r: "read_index 7 3 2 = Inr ((7 + 2) mod 3)"
    and d: "bind_err (read_index 7 3 2) (display_index 7 3) = Inr 2"
    by blast+
  from r have r': "read_index 7 3 2 = Inr 0" by simp
  from d have "display_index 7 3 0 = Inr 2" by (simp add: r')
  with h r' show ?thesis by blast
qed

lemma recorded_data [simp]:
  "recorded n now fs s \<Longrightarrow> length d = nat n \<Longrightarrow> recorded n now fs (s\<lparr>data := d\<rparr>)"
  by (simp add: recorded_def)

lemma run_frames_recorded:
  assumes "0 < n" "int (length fs) \<le> INT_MAX"
  shows "\<exists>s. run_frames n now fs = Inr s \<and> recorded n now fs s"
  using run_frames_inv [OF assms, of now] by (auto simp: recorded_def)




text \<open>The samples of a frame whose counters are values of \<^verbatim>\<open>int\<close>.\<close>

lemma RenderStats_ok_zero: "RenderStats_ok RenderStats_zero"
  by (simp add: RenderStats_ok_def RenderStats_zero_def is_int32_def INT_MIN_def INT_MAX_def)

lemma sample_drawCalls_ok:
  "sample_drawCalls r = Inr (float_round (real_of_int (drawCalls r)))"
  by (simp add: sample_drawCalls_def float_of_int_def)

lemma sample_stateChanges_ok:
  assumes "RenderStats_ok r"
  shows "sample_stateChanges r =
     Inr (float_round (real_of_int
       (stateChangesShader r + stateChangesMaterial r + stateChangesMesh r)))"
  using assms
  by (simp add: sample_stateChanges_def RenderStats_ok_def is_int32_def int_add_def
      int_result_ok float_of_int_def)

lemma sample_meshMB_ok:
  "sample_meshMB r = Inr (float_round (float_round (real_of_int (meshBytes r)) / 1000000))"
  by (simp add: sample_meshMB_def float_of_int_def)

lemma sample_textureMB_ok:
  "sample_textureMB r =
     Inr (float_round (float_round (real_of_int (textureBytes r)) / 1000000))"
  by (simp add: sample_textureMB_def float_of_int_def)


lemma series_milliseconds:
  assumes rec: "recorded n now fs s"
    and n: "0 < n" and r2: "2 * n \<le> INT_MAX + 1" and r1: "int (length fs) + n \<le> INT_MAX + 1"
  shows "\<exists>d mx. plot_series s (sample_milliseconds s) =
           Inr (s\<lparr>data := d\<rparr>, spec_float_mean (nat n) (deltas now (map fst fs)), mx) \<and>
           length d = nat n"
proof -
  have ring: "ring_inv (nat n) (milliseconds s) (deltas now (map fst fs)) 0"
    using rec by (simp add: recorded_def)
  then have len: "length (milliseconds s) = nat n" by (simp add: ring_inv_def)
  have "\<exists>d mx. plot_series s (sample_milliseconds s) =
           Inr (s\<lparr>data := d\<rparr>,
                spec_float_mean (nat n) (map (\<lambda>x. x) (deltas now (map fst fs))), mx) \<and>
           length d = nat n"
    using rec n r2 r1 ring
    by (intro plot_series_avg [where b = "milliseconds s" and z = 0])
       (simp_all add: recorded_def sample_milliseconds_ok [OF len])
  then show ?thesis by simp
qed

lemma series_stats:
  assumes rec: "recorded n now fs s"
    and n: "0 < n" and r2: "2 * n \<le> INT_MAX + 1" and r1: "int (length fs) + n \<le> INT_MAX + 1"
    and smp: "\<And>r. r = RenderStats_zero \<or> r \<in> set (map snd fs) \<Longrightarrow> smp r = Inr (h r)"
    and hz: "h RenderStats_zero = 0"
  shows "\<exists>d mx. plot_series s (sample_stats s smp) =
           Inr (s\<lparr>data := d\<rparr>, spec_float_mean (nat n) (map (\<lambda>f. h (snd f)) fs), mx) \<and>
           length d = nat n"
proof -
  have ring: "ring_inv (nat n) (stats s) (map snd fs) RenderStats_zero"
    using rec by (simp add: recorded_def)
  then have len: "length (stats s) = nat n" by (simp add: ring_inv_def)
  have slot: "sample_stats s smp j = Inr (h (stats s ! nat j))" if "0 \<le> j" "j < n" for j
  proof -
    have "nat j < nat n" using that by simp
    then have "stats s ! nat j = RenderStats_zero \<or> stats s ! nat j \<in> set (map snd fs)"
      using ring by (simp add: ring_inv_def)
    then have "smp (stats s ! nat j) = Inr (h (stats s ! nat j))" by (rule smp)
    then show ?thesis using that by (simp add: sample_stats_ok [OF len])
  qed
  have "\<exists>d mx. plot_series s (sample_stats s smp) =
           Inr (s\<lparr>data := d\<rparr>, spec_float_mean (nat n) (map h (map snd fs)), mx) \<and>
           length d = nat n"
    using rec n r2 r1 ring hz slot
    by (intro plot_series_avg [where b = "stats s" and z = RenderStats_zero])
       (simp_all add: recorded_def)
  then show ?thesis by (simp add: comp_def)
qed

lemma gui_performance_recorded:
  assumes rec: "recorded n now fs s"
    and n: "0 < n" and r2: "2 * n \<le> INT_MAX + 1" and r1: "int (length fs) + n \<le> INT_MAX + 1"
    and ok: "\<forall>f \<in> set fs. RenderStats_ok (snd f)"
    and op: "collapsingHeader env ''Performance''"
  shows "\<exists>s1 m1 d1 m2 d2 m3 d3. recorded n now fs s1 \<and>
     gui_performance env s = Inr (s1,
       [PlotLines ''Milliseconds'' (spec_float_mean (nat n) (deltas now (map fst fs))) m1 d1,
        PlotLines ''Draw calls''
          (spec_float_mean (nat n)
             (map (\<lambda>f. float_round (real_of_int (drawCalls (snd f)))) fs)) m2 d2,
        PlotLines ''State changes''
          (spec_float_mean (nat n)
             (map (\<lambda>f. float_round (real_of_int
                (stateChangesShader (snd f) + stateChangesMaterial (snd f) +
                 stateChangesMesh (snd f)))) fs)) m3 d3])"
proof -
  have oks: "RenderStats_ok r" if "r = RenderStats_zero \<or> r \<in> set (map snd fs)" for r
    using that ok by (auto simp: RenderStats_ok_zero)
  obtain d1 m1 where 1: "plot_series s (sample_milliseconds s) =
      Inr (s\<lparr>data := d1\<rparr>, spec_float_mean (nat n) (deltas now (map fst fs)), m1)"
      and l1: "length d1 = nat n"
    using series_milliseconds [OF rec n r2 r1] by blast
  have rec1: "recorded n now fs (s\<lparr>data := d1\<rparr>)" using rec l1 by simp
  obtain d2 m2 where 2: "plot_series (s\<lparr>data := d1\<rparr>) (sample_stats s sample_drawCalls) =
      Inr (s\<lparr>data := d2\<rparr>,
           spec_float_mean (nat n)
             (map (\<lambda>f. float_round (real_of_int (drawCalls (snd f)))) fs), m2)"
      and l2: "length d2 = nat n"
    using series_stats [where smp = sample_drawCalls
        and h = "\<lambda>r. float_round (real_of_int (drawCalls r))", OF rec1 n r2 r1]
    by (auto simp: sample_drawCalls_ok RenderStats_zero_def)
  have rec2: "recorded n now fs (s\<lparr>data := d2\<rparr>)" using rec l2 by simp
  obtain d3 m3 where 3: "plot_series (s\<lparr>data := d2\<rparr>) (sample_stats s sample_stateChanges) =
      Inr (s\<lparr>data := d3\<rparr>,
           spec_float_mean (nat n)
             (map (\<lambda>f. float_round (real_of_int
                (stateChangesShader (snd f) + stateChangesMaterial (snd f) +
                 stateChangesMesh (snd f)))) fs), m3)"
      and l3: "length d3 = nat n"
    using series_stats [where smp = sample_stateChanges
        and h = "\<lambda>r. float_round (real_of_int
                (stateChangesShader r + stateChangesMaterial r + stateChangesMesh r))",
        OF rec2 n r2 r1]
    by (auto simp: sample_stateChanges_ok oks RenderStats_zero_def)
  have rec3: "recorded n now fs (s\<lparr>data := d3\<rparr>)" using rec l3 by simp
  have "gui_performance env s = Inr (s\<lparr>data := d3\<rparr>,
       [PlotLines ''Milliseconds'' (spec_float_mean (nat n) (deltas now (map fst fs))) m1 d1,
        PlotLines ''Draw calls''
          (spec_float_mean (nat n)
             (map (\<lambda>f. float_round (real_of_int (drawCalls (snd f)))) fs)) m2 d2,
        PlotLines ''State changes''
          (spec_float_mean (nat n)
             (map (\<lambda>f. float_round (real_of_int
                (stateChangesShader (snd f) + stateChangesMaterial (snd f) +
                 stateChangesMesh (snd f)))) fs)) m3 d3])"
    using op by (simp add: gui_performance_def 1 2 3)
  with rec3 show ?thesis by blast
qed

lemma gui_memory_recorded:
  assumes rec: "recorded n now fs s"
    and n: "0 < n" and r2: "2 * n \<le> INT_MAX + 1" and r1: "int (length fs) + n \<le> INT_MAX + 1"
    and op: "collapsingHeader env ''Memory''"
  shows "\<exists>s2 m4 d4 m5 d5. recorded n now fs s2 \<and>
     gui_memory env s = Inr (s2,
       [PlotLines ''Mesh MB''
          (spec_float_mean (nat n)
             (map (\<lambda>f. float_round (float_round (real_of_int (meshBytes (snd f))) / 1000000))
                fs)) m4 d4,
        PlotLines ''Texture MB''
          (spec_float_mean (nat n)
             (map (\<lambda>f. float_round (float_round (real_of_int (textureBytes (snd f))) / 1000000))
                fs)) m5 d5])"
proof -
  obtain d4 m4 where 1: "plot_series s (sample_stats s sample_meshMB) =
      Inr (s\<lparr>data := d4\<rparr>,
           spec_float_mean (nat n)
             (map (\<lambda>f. float_round (float_round (real_of_int (meshBytes (snd f))) / 1000000))
                fs), m4)"
      and l1: "length d4 = nat n"
    using series_stats [where smp = sample_meshMB
        and h = "\<lambda>r. float_round (float_round (real_of_int (meshBytes r)) / 1000000)",
        OF rec n r2 r1]
    by (auto simp: sample_meshMB_ok RenderStats_zero_def)
  have rec1: "recorded n now fs (s\<lparr>data := d4\<rparr>)" using rec l1 by simp
  obtain d5 m5 where 2: "plot_series (s\<lparr>data := d4\<rparr>) (sample_stats s sample_textureMB) =
      Inr (s\<lparr>data := d5\<rparr>,
           spec_float_mean (nat n)
             (map (\<lambda>f. float_round (float_round (real_of_int (textureBytes (snd f))) / 1000000))
                fs), m5)"
      and l2: "length d5 = nat n"
    using series_stats [where smp = sample_textureMB
        and h = "\<lambda>r. float_round (float_round (real_of_int (textureBytes r)) / 1000000)",
        OF rec1 n r2 r1]
    by (auto simp: sample_textureMB_ok RenderStats_zero_def)
  have rec2: "recorded n now fs (s\<lparr>data := d5\<rparr>)" using rec l2 by simp
  have "gui_memory env s = Inr (s\<lparr>data := d5\<rparr>,
       [PlotLines ''Mesh MB''
          (spec_float_mean (nat n)
             (map (\<lambda>f. float_round (float_round (real_of_int (meshBytes (snd f))) / 1000000))
                fs)) m4 d4,
        PlotLines ''Texture MB''
          (spec_float_mean (nat n)
             (map (\<lambda>f. float_round (float_round (real_of_int (textureBytes (snd f))) / 1000000))
                fs)) m5 d5])"
    using op by (simp add: gui_memory_def 1 2)
  with rec2 show ?thesis by blast
qed



section \<open>Rounding to binary32\<close>

lemma round_even_error: "\<bar>real_of_int (round_even y) - y\<bar> \<le> 1 / 2"
proof -
  have "real_of_int \<lfloor>y\<rfloor> \<le> y" "y < real_of_int \<lfloor>y\<rfloor> + 1" by linarith+
  then show ?thesis by (auto simp: round_even_def Let_def)
qed

lemma exp_up_low: "1 \<le> a \<Longrightarrow> 2 powi (exp_up k a) \<le> a"
proof (induction k arbitrary: a)
  case 0
  then show ?case by simp
next
  case (Suc k)
  show ?case
  proof (cases "a < 2")
    case True
    then show ?thesis using Suc.prems by simp
  next
    case False
    then have "2 powi (exp_up k (a / 2)) \<le> a / 2" by (intro Suc.IH) simp
    then have "2 * 2 powi (exp_up k (a / 2)) \<le> a" by simp
    moreover have "(2::real) powi (1 + exp_up k (a / 2)) = 2 * 2 powi (exp_up k (a / 2))"
      by (simp add: power_int_add)
    ultimately show ?thesis using False by simp
  qed
qed

lemma exp_down_low: "0 < a \<Longrightarrow> 1 / 2 ^ k \<le> a \<Longrightarrow> 2 powi (exp_down k a) \<le> a"
proof (induction k arbitrary: a)
  case 0
  then show ?case by simp
next
  case (Suc k)
  show ?case
  proof (cases "1 \<le> a")
    case True
    then show ?thesis by simp
  next
    case False
    have "1 / 2 ^ k \<le> 2 * a" using Suc.prems(2) by (simp add: field_simps)
    then have "2 powi (exp_down k (2 * a)) \<le> 2 * a" using Suc.prems(1) by (intro Suc.IH) simp_all
    moreover have "(2::real) powi (exp_down k (2 * a) - 1) = 2 powi (exp_down k (2 * a)) / 2"
      by (simp add: power_int_diff)
    ultimately show ?thesis using False by simp
  qed
qed

lemma exp_down_le_0: "exp_down k a \<le> 0"
proof (induction k arbitrary: a)
  case 0
  show ?case by simp
next
  case (Suc k)
  have "exp_down k (2 * a) \<le> 0" by (rule Suc.IH)
  then show ?case by simp
qed

lemma binary32_exponent_low:
  assumes "1 / 2 ^ 126 \<le> a"
  shows "2 powi (binary32_exponent a) \<le> a"
proof (cases "1 \<le> a")
  case True
  then show ?thesis by (simp add: binary32_exponent_def exp_up_low)
next
  case False
  have "0 < a" using assms by (rule less_le_trans [rotated]) simp
  then have "2 powi (exp_down 126 a) \<le> a" using assms by (rule exp_down_low)
  then show ?thesis using False by (simp add: binary32_exponent_def)
qed

text \<open>The rounding moves a number by at most half a unit of its binade.\<close>

lemma float_round_half_unit:
  assumes "x \<noteq> 0"
  shows "\<bar>float_round x - x\<bar> \<le> 2 powi (binary32_exponent \<bar>x\<bar> - 23) / 2"
proof -
  define u :: real where "u = 2 powi (binary32_exponent \<bar>x\<bar> - 23)"
  have u: "0 < u" by (simp add: u_def)
  have "float_round x - x = u * (real_of_int (round_even (x / u)) - x / u)"
    using assms u by (simp add: float_round_def u_def [symmetric] Let_def algebra_simps)
  then have "\<bar>float_round x - x\<bar> = u * \<bar>real_of_int (round_even (x / u)) - x / u\<bar>"
    using u by (simp add: abs_mult)
  also have "\<dots> \<le> u * (1 / 2)"
    using u round_even_error [of "x / u"] by (intro mult_left_mono) simp_all
  finally show ?thesis by (simp add: u_def)
qed

text \<open>In the normal range the relative error is at most \<open>2 ^ -24\<close>.\<close>

lemma float_round_error:
  assumes "1 / 2 ^ 126 \<le> \<bar>x\<bar>"
  shows "\<bar>float_round x - x\<bar> \<le> \<bar>x\<bar> / 2 ^ 24"
proof -
  have nz: "x \<noteq> 0" using assms by auto
  have "(2::real) powi (binary32_exponent \<bar>x\<bar> - 23) = 2 powi (binary32_exponent \<bar>x\<bar>) / 2 ^ 23"
    by (simp add: power_int_diff)
  also have "\<dots> \<le> \<bar>x\<bar> / 2 ^ 23"
    using binary32_exponent_low [OF assms] by (simp add: divide_right_mono)
  finally have "2 powi (binary32_exponent \<bar>x\<bar> - 23) / 2 \<le> \<bar>x\<bar> / 2 ^ 23 / 2" by simp
  with float_round_half_unit [OF nz] show ?thesis by simp
qed

text \<open>A number of magnitude up to \<open>2 ^ 127\<close> rounds to a finite float.\<close>

lemma float_round_finite:
  assumes "\<bar>x\<bar> \<le> 2 ^ 127"
  shows "\<bar>float_round x\<bar> < 2 ^ 128"
proof (cases "1 \<le> \<bar>x\<bar>")
  case True
  then have "1 / 2 ^ 126 \<le> \<bar>x\<bar>" by (rule order_trans [rotated]) simp
  then have "\<bar>float_round x - x\<bar> \<le> \<bar>x\<bar> / 2 ^ 24" by (rule float_round_error)
  then have "\<bar>float_round x\<bar> \<le> \<bar>x\<bar> + \<bar>x\<bar> / 2 ^ 24" by linarith
  also have "\<dots> \<le> 2 ^ 127 + 2 ^ 127 / 2 ^ 24" using assms by (intro add_mono divide_right_mono) simp_all
  also have "\<dots> < (2 ^ 128 :: real)" by simp
  finally show ?thesis .
next
  case False
  show ?thesis
  proof (cases "x = 0")
    case True
    then show ?thesis by simp
  next
    case nz: False
    have "binary32_exponent \<bar>x\<bar> \<le> 0"
      using False by (simp add: binary32_exponent_def exp_down_le_0)
    then have "(2::real) powi (binary32_exponent \<bar>x\<bar> - 23) \<le> 2 powi (0 - 23)"
      by (intro power_int_increasing) simp_all
    then have "(2::real) powi (binary32_exponent \<bar>x\<bar> - 23) / 2 \<le> 1" by (simp add: power_int_minus)
    with float_round_half_unit [OF nz] have "\<bar>float_round x - x\<bar> \<le> 1" by linarith
    then have "\<bar>float_round x\<bar> \<le> \<bar>x\<bar> + 1" by linarith
    also have "\<dots> < 2 ^ 128" using False by simp
    finally show ?thesis .
  qed
qed

lemma round32_finite: "\<bar>x\<bar> \<le> 2 ^ 127 \<Longrightarrow> round32 x = Fin (float_round x)"
  using float_round_finite [of x] by (auto simp: round32_def Let_def)

text \<open>A whole number of magnitude up to \<open>2 ^ 24\<close> is a float.\<close>

lemma exp_up_nonneg: "0 \<le> exp_up k a"
  by (induction k arbitrary: a) simp_all

lemma round_even_of_int [simp]: "round_even (of_int k) = k"
  by (simp add: round_even_def)

lemma float_round_of_int:
  assumes "\<bar>i\<bar> \<le> 2 ^ 24"
  shows "float_round (of_int i) = of_int i"
proof (cases "i = 0")
  case True
  then show ?thesis by simp
next
  case False
  define a :: real where "a = \<bar>of_int i\<bar>"
  define e where "e = exp_up 128 a"
  have a1: "1 \<le> a" using False by (simp add: a_def)
  have a2: "a \<le> 2 ^ 24"
  proof -
    have "real_of_int \<bar>i\<bar> \<le> real_of_int (2 ^ 24)" using assms by (intro of_int_le_iff [THEN iffD2])
    then show ?thesis by (simp add: a_def)
  qed
  have e0: "0 \<le> e" by (simp add: e_def exp_up_nonneg)
  have "(2::real) powi e \<le> a" unfolding e_def using a1 by (rule exp_up_low)
  then have le: "(2::real) powi e \<le> 2 ^ 24" using a2 by simp
  have e24: "e \<le> 24"
  proof (rule ccontr)
    assume "\<not> e \<le> 24"
    then have "25 \<le> e" by simp
    then have "(2::real) powi 25 \<le> 2 powi e" by (intro power_int_increasing) simp_all
    with le show False by simp
  qed
  have ex: "binary32_exponent \<bar>real_of_int i\<bar> = e"
    using a1 by (simp add: binary32_exponent_def e_def a_def)
  show ?thesis
  proof (cases "e \<le> 23")
    case True
    define j where "j = nat (23 - e)"
    have u: "(2::real) powi (e - 23) = 1 / 2 ^ j"
      using True by (simp add: j_def power_int_def divide_simps nat_diff_distrib)
    have "real_of_int i / (1 / 2 ^ j) = of_int (i * 2 ^ j)" by simp
    then have "round_even (real_of_int i / (1 / 2 ^ j)) = i * 2 ^ j"
      by (simp only: round_even_of_int)
    then show ?thesis using False by (simp add: float_round_def ex u Let_def)
  next
    case False
    with e24 have e: "e = 24" by simp
    have "(2::real) ^ 24 \<le> a" using \<open>(2::real) powi e \<le> a\<close> by (simp add: e)
    with a2 have "a = 2 ^ 24" by simp
    then have "real_of_int \<bar>i\<bar> = real_of_int (2 ^ 24)" by (simp add: a_def)
    then have "\<bar>i\<bar> = 2 ^ 24" by (simp only: of_int_eq_iff)
    then have "even \<bar>i\<bar>" by simp
    then have ev: "even i" by simp
    then have h: "real_of_int i / 2 = real_of_int (i div 2)" by (simp add: real_of_int_div)
    have "round_even (real_of_int i / 2) = i div 2" by (simp only: h round_even_of_int)
    moreover have "2 * real_of_int (i div 2) = real_of_int i" using h by simp
    moreover have "real_of_int i \<noteq> 0" using \<open>i \<noteq> 0\<close> by simp
    ultimately show ?thesis by (simp add: float_round_def ex e Let_def)
  qed
qed

text \<open>For a series of whole numbers that are not negative and add up to at most \<open>2 ^ 24\<close>,
  as the frame times in milliseconds and the counters do unless they are huge, every sum
  is exact, and the mean in float arithmetic is the arithmetic mean rounded once.\<close>

lemma float_sum_of_counts:
  assumes "\<forall>i \<in> set ks. 0 \<le> i" and "0 \<le> k" and "k + sum_list ks \<le> 2 ^ 24"
  shows "foldl (\<lambda>a v. fadd32 a (Fin v)) (Fin (real_of_int k)) (map real_of_int ks) =
     Fin (real_of_int (k + sum_list ks))"
  using assms
proof (induction ks arbitrary: k)
  case Nil
  show ?case by simp
next
  case (Cons i ks)
  have nn: "0 \<le> sum_list ks" using Cons.prems(1) by (intro sum_list_nonneg) simp
  have i: "0 \<le> i" using Cons.prems(1) by simp
  have b: "\<bar>k + i\<bar> \<le> 2 ^ 24" using Cons.prems(2,3) i nn by simp
  have "real_of_int \<bar>k + i\<bar> \<le> real_of_int (2 ^ 24)"
    using b by (intro of_int_le_iff [THEN iffD2])
  then have "\<bar>real_of_int (k + i)\<bar> \<le> 2 ^ 24" by simp
  then have "\<bar>real_of_int (k + i)\<bar> \<le> 2 ^ 127" by (rule order_trans) simp
  then have "round32 (real_of_int (k + i)) = Fin (float_round (real_of_int (k + i)))"
    by (rule round32_finite)
  then have s: "fadd32 (Fin (real_of_int k)) (Fin (real_of_int i)) = Fin (real_of_int (k + i))"
    using float_round_of_int [OF b] by simp
  have "foldl (\<lambda>a v. fadd32 a (Fin v)) (Fin (real_of_int (k + i))) (map real_of_int ks) =
     Fin (real_of_int (k + i + sum_list ks))"
    using Cons.prems i by (intro Cons.IH) simp_all
  then show ?case by (simp only: list.map foldl_Cons s sum_list.Cons add.assoc)
qed

lemma spec_float_mean_of_counts:
  assumes ne: "ks \<noteq> []" and n: "0 < n" "n \<le> 2 ^ 24"
    and nn: "\<forall>i \<in> set ks. 0 \<le> i"
    and sm: "sum_list (spec_last (min (length ks) n) ks) \<le> 2 ^ 24"
  shows "spec_float_mean n (map real_of_int ks) =
     Fin (float_round (real_of_int (sum_list (spec_last (min (length ks) n) ks)) /
                       real (min (length ks) n)))"
proof -
  define k where "k = min (length ks) n"
  define S where "S = sum_list (spec_last k ks)"
  have k: "0 < k" "k \<le> 2 ^ 24" using ne n by (auto simp: k_def min_def)
  have sub: "\<forall>i \<in> set (spec_last k ks). 0 \<le> i"
    using nn set_drop_subset [of "length ks - k" ks] by (auto simp: spec_last_def)
  have S0: "0 \<le> S" unfolding S_def using sub by (intro sum_list_nonneg) simp
  have S1: "S \<le> 2 ^ 24" using sm by (simp add: S_def k_def)
  have "foldl (\<lambda>a v. fadd32 a (Fin v)) (Fin (real_of_int 0)) (map real_of_int (spec_last k ks)) =
     Fin (real_of_int (0 + sum_list (spec_last k ks)))"
    using sub S1 by (intro float_sum_of_counts) (simp_all add: S_def)
  then have sum: "spec_float_sum (spec_last k (map real_of_int ks)) = Fin (real_of_int S)"
    by (simp add: spec_float_sum_def spec_last_map S_def)
  have "\<bar>int k\<bar> \<le> 2 ^ 24" using k(2) by simp
  then have "float_round (real_of_int (int k)) = real_of_int (int k)" by (rule float_round_of_int)
  then have fk: "float_round (real k) = real k" by simp
  have "real_of_int S / real k \<le> real_of_int S"
    using S0 k(1) by (simp add: divide_le_eq mult_le_cancel_left1)
  moreover have "real_of_int S \<le> real_of_int (2 ^ 24)"
    using S1 by (intro of_int_le_iff [THEN iffD2])
  moreover have "0 \<le> real_of_int S / real k" using S0 by simp
  ultimately have "\<bar>real_of_int S / real k\<bar> \<le> 2 ^ 127" by simp
  then have "round32 (real_of_int S / real k) = Fin (float_round (real_of_int S / real k))"
    by (rule round32_finite)
  then have "fdiv32 (Fin (real_of_int S)) (Fin (real k)) =
      Fin (float_round (real_of_int S / real k))"
    using k(1) by simp
  then show ?thesis using ne by (simp add: spec_float_mean_def sum fk k_def [symmetric] S_def)
qed

section \<open>Claims on the scratch textures and the previews\<close>

lemma getTmpTexture_cached:
  assumes "usedTextures s = int u" "u < length (offscreenTextures s)" "int u < INT_MAX"
  shows "getTmpTexture s = Inr (offscreenTextures s ! u, s\<lparr>usedTextures := int u + 1\<rparr>)"
  using assms
  by (simp add: getTmpTexture_def Let_def int_add_def int_result_ok INT_MIN_def at_vec_def)

lemma getTmpTexture_new:
  assumes "usedTextures s = int u" "length (offscreenTextures s) \<le> u" "int u < INT_MAX"
  shows "getTmpTexture s =
     Inr (scratch_texture (length (offscreenTextures s)),
          s\<lparr>offscreenTextures := offscreenTextures s @ [scratch_texture (length (offscreenTextures s))],
            usedTextures := int u + 1\<rparr>)"
  using assms
  by (simp add: getTmpTexture_def Let_def int_add_def int_result_ok INT_MIN_def)

text \<open>Requests that the pool can serve return its textures by index and leave it as it is.\<close>

lemma getTmpTextures_cached:
  "usedTextures s = int u \<Longrightarrow> u + m \<le> length (offscreenTextures s) \<Longrightarrow>
   int (length (offscreenTextures s)) \<le> INT_MAX \<Longrightarrow>
   getTmpTextures m s =
     Inr (take m (drop u (offscreenTextures s)), s\<lparr>usedTextures := int (u + m)\<rparr>)"
proof (induction m arbitrary: s u)
  case 0
  then show ?case by simp
next
  case (Suc m)
  have 1: "getTmpTexture s = Inr (offscreenTextures s ! u, s\<lparr>usedTextures := int u + 1\<rparr>)"
    using Suc.prems by (intro getTmpTexture_cached) simp_all
  have 2: "getTmpTextures m (s\<lparr>usedTextures := int u + 1\<rparr>) =
     Inr (take m (drop (Suc u) (offscreenTextures (s\<lparr>usedTextures := int u + 1\<rparr>))),
          s\<lparr>usedTextures := int u + 1\<rparr>\<lparr>usedTextures := int (Suc u + m)\<rparr>)"
    using Suc.prems by (intro Suc.IH) simp_all
  have 3: "take (Suc m) (drop u (offscreenTextures s)) =
     offscreenTextures s ! u # take m (drop (Suc u) (offscreenTextures s))"
    using Suc.prems by (simp add: Cons_nth_drop_Suc [symmetric])
  show ?case by (simp add: 1 2 3)
qed

text \<open>Requests beyond the pool build one texture each.\<close>

lemma getTmpTextures_new:
  "usedTextures s = int (length (offscreenTextures s)) \<Longrightarrow>
   int (length (offscreenTextures s) + m) \<le> INT_MAX \<Longrightarrow>
   getTmpTextures m s =
     Inr (map scratch_texture [length (offscreenTextures s)..<length (offscreenTextures s) + m],
          s\<lparr>offscreenTextures := offscreenTextures s @
               map scratch_texture [length (offscreenTextures s)..<length (offscreenTextures s) + m],
            usedTextures := int (length (offscreenTextures s) + m)\<rparr>)"
proof (induction m arbitrary: s)
  case 0
  then show ?case by simp
next
  case (Suc m)
  define N where "N = length (offscreenTextures s)"
  define s1 where "s1 = s\<lparr>offscreenTextures := offscreenTextures s @ [scratch_texture N],
            usedTextures := int N + 1\<rparr>"
  have 1: "getTmpTexture s = Inr (scratch_texture N, s1)"
    unfolding s1_def N_def using Suc.prems by (intro getTmpTexture_new) simp_all
  have l1: "length (offscreenTextures s1) = Suc N" by (simp add: s1_def N_def)
  have 2: "getTmpTextures m s1 =
     Inr (map scratch_texture [length (offscreenTextures s1)..<length (offscreenTextures s1) + m],
          s1\<lparr>offscreenTextures := offscreenTextures s1 @
               map scratch_texture [length (offscreenTextures s1)..<length (offscreenTextures s1) + m],
            usedTextures := int (length (offscreenTextures s1) + m)\<rparr>)"
    using Suc.prems by (intro Suc.IH) (simp_all add: s1_def N_def)
  have 3: "[N..<Suc (N + m)] = N # [Suc N..<Suc (N + m)]"
    by (simp add: upt_conv_Cons)
  have "getTmpTextures (Suc m) s =
     Inr (scratch_texture N # map scratch_texture [Suc N..<Suc N + m],
          s1\<lparr>offscreenTextures := offscreenTextures s1 @ map scratch_texture [Suc N..<Suc N + m],
            usedTextures := int (Suc N + m)\<rparr>)"
    by (simp add: 1 2 l1 del: upt_Suc)
  also have "s1\<lparr>offscreenTextures := offscreenTextures s1 @ map scratch_texture [Suc N..<Suc N + m],
            usedTextures := int (Suc N + m)\<rparr> =
      s\<lparr>offscreenTextures := offscreenTextures s @ map scratch_texture [N..<N + Suc m],
            usedTextures := int (N + Suc m)\<rparr>"
    by (simp add: s1_def 3 del: upt_Suc)
  finally show ?case by (simp add: 3 N_def [symmetric] del: upt_Suc)
qed

lemma getTmpTextures_append:
  "getTmpTextures (a + b) s =
     bind_err (getTmpTextures a s) (\<lambda>(ta, s1).
     bind_err (getTmpTextures b s1) (\<lambda>(tb, s2). Inr (ta @ tb, s2)))"
proof (induction a arbitrary: s)
  case 0
  show ?case by (simp add: bind_err_def split: sum.splits prod.splits)
next
  case (Suc a)
  show ?case
    by (simp add: Suc.IH bind_err_def split: sum.splits prod.splits)
qed

text \<open>Claim C3, as amended. With \<open>N\<close> textures in the pool at the start of a frame, where
  \<open>update\<close> has set \<open>usedTextures\<close> to 0, \<open>M > N\<close> requests return the \<open>N\<close> pooled textures by
  index, in order, and then build one new texture for each further request: \<open>M - N\<close> new
  textures, named after their index, and the pool ends with \<open>M\<close> textures.\<close>

theorem pool_serves_cache_then_grows:
  assumes "usedTextures s = 0" and "length (offscreenTextures s) = N" and "N < M"
    and "int M \<le> INT_MAX"
  shows "getTmpTextures M s =
     Inr (offscreenTextures s @ map scratch_texture [N..<M],
          s\<lparr>offscreenTextures := offscreenTextures s @ map scratch_texture [N..<M],
            usedTextures := int M\<rparr>) \<and>
     new_textures M s = Some (M - N)"
proof -
  have 1: "getTmpTextures N s = Inr (offscreenTextures s, s\<lparr>usedTextures := int N\<rparr>)"
    using getTmpTextures_cached [of s 0 N] assms by simp
  have 2: "getTmpTextures (M - N) (s\<lparr>usedTextures := int N\<rparr>) =
     Inr (map scratch_texture [N..<M],
          s\<lparr>offscreenTextures := offscreenTextures s @ map scratch_texture [N..<M],
            usedTextures := int M\<rparr>)"
    using getTmpTextures_new [of "s\<lparr>usedTextures := int N\<rparr>" "M - N"] assms by simp
  have "getTmpTextures (N + (M - N)) s =
     Inr (offscreenTextures s @ map scratch_texture [N..<M],
          s\<lparr>offscreenTextures := offscreenTextures s @ map scratch_texture [N..<M],
            usedTextures := int M\<rparr>)"
    by (simp only: getTmpTextures_append 1 2 bind_err_Inr prod.case)
  then have r: "getTmpTextures M s =
     Inr (offscreenTextures s @ map scratch_texture [N..<M],
          s\<lparr>offscreenTextures := offscreenTextures s @ map scratch_texture [N..<M],
            usedTextures := int M\<rparr>)"
    using assms by simp
  then show ?thesis using assms by (simp add: new_textures_def)
qed

theorem pool_serves_cache_then_grows_witness:
  "(usedTextures pool_one = 0 \<and> length (offscreenTextures pool_one) = 1 \<and> (1::nat) < 3 \<and>
    int 3 \<le> INT_MAX) \<and>
   (getTmpTextures 3 pool_one =
     Inr (offscreenTextures pool_one @ map scratch_texture [1..<3],
          pool_one\<lparr>offscreenTextures := offscreenTextures pool_one @ map scratch_texture [1..<3],
            usedTextures := int 3\<rparr>) \<and>
    new_textures 3 pool_one = Some (3 - 1))"
proof -
  have h: "usedTextures pool_one = 0 \<and> length (offscreenTextures pool_one) = 1 \<and> (1::nat) < 3 \<and>
    int 3 \<le> INT_MAX"
    by (simp add: pool_one_def INT_MAX_def)
  from h pool_serves_cache_then_grows [of pool_one 1 3] show ?thesis by blast
qed

text \<open>Claim C3 as stated says that the requests beyond the pool allocate at most \<open>N\<close> new
  textures. With one texture in the pool, three requests allocate two.\<close>

theorem pool_allocates_more_than_cached:
  "usedTextures pool_one = 0 \<and> length (offscreenTextures pool_one) = 1 \<and>
   new_textures 3 pool_one = Some 2 \<and> \<not> (2::nat) \<le> 1"
  by (simp add: new_textures_def pool_one_def getTmpTexture_def Let_def int_add_def
      int_result_def INT_MIN_def INT_MAX_def at_vec_def eval_nat_numeral)

lemma length_mats_loop:
  "length (mats_loop m bound mat mats) = length mats + nat (bound - m)"
proof (induction m bound mat mats rule: mats_loop.induct)
  case (1 m bound mat mats)
  show ?case
  proof (cases "m < bound")
    case True
    then have "length (mats_loop m bound mat mats) =
        length (mats_loop (m + 1) bound mat (mats @ [mat]))"
      by (subst mats_loop.simps) simp
    also have "\<dots> = length (mats @ [mat]) + nat (bound - (m + 1))"
      using True by (rule "1.IH")
    finally show ?thesis using True by simp
  next
    case False
    then show ?thesis by (subst mats_loop.simps) simp
  qed
qed

lemma length_preview_materials:
  "int (length (preview_materials mesh)) = max 1 (indexSets mesh)"
  by (simp add: preview_materials_def Let_def length_mats_loop)








text \<open>Claim C5. The materials that the mesh preview passes to \<open>draw\<close> are \<open>max 1 indexSets\<close>
  many, so the shape check of \<open>draw\<close> passes and \<open>showMesh\<close> never ends in a shape mismatch.
  The index-set count of a mesh is not negative.\<close>

theorem preview_materials_fit_draw:
  assumes "0 \<le> indexSets mesh"
  shows "int (length (preview_materials mesh)) = max 1 (indexSets mesh) \<and>
         RenderPass_draw mesh transform (preview_materials mesh) = Inr () \<and>
         showMesh env (p, mesh) s \<noteq> Inl ShapeMismatch"
proof -
  have l: "int (length (preview_materials mesh)) = max 1 (indexSets mesh)"
    by (rule length_preview_materials)
  have d: "RenderPass_draw mesh t (preview_materials mesh) = Inr ()" for t
    using assms by (auto simp: RenderPass_draw_def l)
  have i: "initFramebuffer s0 \<noteq> Inl ShapeMismatch" for s0
    by (auto simp: initFramebuffer_def getTmpTexture_def Let_def int_add_def int_result_def
        at_vec_def bind_err_def split: option.splits sum.splits if_splits)
  have g: "getTmpTexture s0 \<noteq> Inl ShapeMismatch" for s0
    by (auto simp: getTmpTexture_def Let_def int_add_def int_result_def
        at_vec_def bind_err_def split: sum.splits if_splits)
  have t: "setTexture s0 tex \<noteq> Inl ShapeMismatch" for s0 tex
    by (auto simp: setTexture_def split: option.splits)
  have "showMesh env (p, mesh) s \<noteq> Inl ShapeMismatch"
    using i g t
    by (auto simp: showMesh_def d Let_def bind_err_def split: sum.splits prod.splits)
  with l d show ?thesis by blast
qed

theorem preview_materials_fit_draw_witness:
  "0 \<le> indexSets example_mesh \<and>
   int (length (preview_materials example_mesh)) = 3 \<and>
   RenderPass_draw example_mesh
     \<lparr>rotationY = Fin 0, scaling = (Fin (1 / 2), Fin (1 / 2), Fin (1 / 2)),
      translation = (Fin 0, Fin 0, Fin 0)\<rparr>
     (preview_materials example_mesh) = Inr () \<and>
   showMesh env_idle (7, example_mesh) pool_one \<noteq> Inl ShapeMismatch"
proof -
  have h: "0 \<le> indexSets example_mesh" by (simp add: example_mesh_def)
  have e: "max 1 (indexSets example_mesh) = 3" by (simp add: example_mesh_def)
  from preview_materials_fit_draw [OF h] h show ?thesis by (simp add: e)
qed

section \<open>Claims on the shader editor\<close>

lemma editShader_view:
  assumes "editShader env p shader (s, e) = Inr ((s', e'), evs)"
  shows "shaderEdit s' = (if windowOpen env then shaderEdit s else None) \<and>
         shaderRef e' = Some p \<and> hd evs = EditorWindow p (shaderName shader)"
proof -
  obtain e1 where e1: "editShader_load env p shader e = Inr e1"
    using assms by (auto simp: editShader_def bind_err_def split: sum.splits)
  have r1: "shaderRef e1 = Some p"
    using e1 by (auto simp: editShader_load_def bind_err_def split: if_splits sum.splits)
  have sel: "shaderRef e2 = Some p" if "select_shader env a e1 = (u, e2)" for a u e2
    using that r1 by (auto simp: select_shader_def split: prod.splits)
  show ?thesis
    using assms
    by (auto simp: editShader_def e1 Let_def bind_err_def
        split: sum.splits prod.splits if_splits dest: sel)
qed

text \<open>Claim C6. While the shader that the edit view was opened on is alive, \<open>gui\<close> runs the
  editor on that very shader: its window is the first thing shown, the editor's statics
  are keyed to it, and the weak pointer keeps pointing to it unless the user closes the
  window. Once the shader is destroyed the weak pointer no longer locks: the same call
  shows nothing, raises no error and changes no state.\<close>

theorem edit_view_closes_when_shader_destroyed:
  assumes "shaderEdit s = Some p" and "heap p = Some shader"
  shows "gui_edit env heap (s, e) = editShader env p shader (s, e) \<and>
         (case editShader env p shader (s, e) of
            Inl err \<Rightarrow> True
          | Inr ((s', e'), evs) \<Rightarrow>
              shaderEdit s' = (if windowOpen env then Some p else None) \<and>
              shaderRef e' = Some p \<and> hd evs = EditorWindow p (shaderName shader)) \<and>
         gui_edit env (heap(p := None)) (s, e) = Inr ((s, e), [])"
proof -
  have a: "gui_edit env heap (s, e) = editShader env p shader (s, e)"
    using assms by (simp add: gui_edit_def weak_lock_def)
  have b: "gui_edit env (heap(p := None)) (s, e) = Inr ((s, e), [])"
    using assms by (simp add: gui_edit_def weak_lock_def)
  have c: "(case editShader env p shader (s, e) of
            Inl err \<Rightarrow> True
          | Inr ((s', e'), evs) \<Rightarrow>
              shaderEdit s' = (if windowOpen env then Some p else None) \<and>
              shaderRef e' = Some p \<and> hd evs = EditorWindow p (shaderName shader))"
  proof (cases "editShader env p shader (s, e)")
    case (Inl err)
    then show ?thesis by simp
  next
    case (Inr res)
    obtain s' e' evs where res: "res = ((s', e'), evs)" by (metis prod.exhaust)
    from editShader_view [OF Inr [unfolded res]] assms(1)
    show ?thesis by (simp add: Inr res)
  qed
  from a b c show ?thesis by blast
qed

theorem edit_view_closes_when_shader_destroyed_witness:
  "(shaderEdit editing_one = Some 1 \<and> example_heap 1 = Some example_shader) \<and>
   gui_edit env_idle example_heap (editing_one, EditState_init) =
     editShader env_idle 1 example_shader (editing_one, EditState_init) \<and>
   editShader env_idle 1 example_shader (editing_one, EditState_init) =
     Inr ((editing_one,
           EditState_init\<lparr>shaderRef := Some 1,
             shaderCode := [''unlit_vert.glsl'', ''unlit_frag.glsl''],
             editorText := ''unlit_vert.glsl''\<rparr>),
          [EditorWindow 1 ''unlit'', EditorRender ''unlit_vert.glsl'' False]) \<and>
   gui_edit env_idle (example_heap(1 := None)) (editing_one, EditState_init) =
     Inr ((editing_one, EditState_init), [])"
proof -
  have h: "shaderEdit editing_one = Some 1 \<and> example_heap 1 = Some example_shader"
    by (simp add: editing_one_def example_heap_def)
  have v: "editShader env_idle 1 example_shader (editing_one, EditState_init) =
     Inr ((editing_one,
           EditState_init\<lparr>shaderRef := Some 1,
             shaderCode := [''unlit_vert.glsl'', ''unlit_frag.glsl''],
             editorText := ''unlit_vert.glsl''\<rparr>),
          [EditorWindow 1 ''unlit'', EditorRender ''unlit_vert.glsl'' False])"
    by (simp add: editShader_def editShader_load_def select_shader_def env_idle_def
        example_shader_def EditState_init_def at_vec_def Let_def)
  from h v edit_view_closes_when_shader_destroyed
    [of editing_one 1 example_heap example_shader env_idle EditState_init]
  show ?thesis by blast
qed








text \<open>The line after the combo does not keep the index valid by itself: it lets an answer
  equal to the number of items pass, and the next access is then outside \<open>shaderCode\<close>.
  What excludes that answer is the combo.\<close>

lemma clamp_alone_admits_item_count:
  "int (length (shaderCode (EditState_init\<lparr>shaderRef := Some 1,
       shaderCode := [''unlit_vert.glsl'', ''unlit_frag.glsl''],
       editorText := ''unlit_vert.glsl''\<rparr>))) = 2 \<and>
   select_shader (env_choose 2) (activeShaders (shaderSources example_shader))
     (EditState_init\<lparr>shaderRef := Some 1,
        shaderCode := [''unlit_vert.glsl'', ''unlit_frag.glsl''],
        editorText := ''unlit_vert.glsl''\<rparr>) =
     (True, EditState_init\<lparr>shaderRef := Some 1,
        shaderCode := [''unlit_vert.glsl'', ''unlit_frag.glsl''],
        editorText := ''unlit_vert.glsl'', selectedShader := 2\<rparr>) \<and>
   editShader (env_choose 2) 1 example_shader (editing_one, EditState_init) = Inl OutOfBounds"
  by (simp add: editShader_def editShader_load_def select_shader_def env_choose_def env_idle_def
      example_shader_def EditState_init_def at_vec_def set_vec_def Let_def)

section \<open>The whole inspector\<close>

text \<open>The plots write the display buffer only.\<close>

lemma plot_series_keeps:
  assumes "plot_series s sample = Inr (s', avg, mx)"
  shows "\<exists>d. s' = s\<lparr>data := d\<rparr>"
  using assms by (auto simp: plot_series_def bind_err_def split: sum.splits prod.splits)

lemma gui_performance_keeps:
  assumes "gui_performance env s = Inr (s', ev)"
  shows "\<exists>d. s' = s\<lparr>data := d\<rparr>"
proof (cases "collapsingHeader env ''Performance''")
  case False
  with assms have "s' = s\<lparr>data := data s\<rparr>" by (simp add: gui_performance_def)
  then show ?thesis by blast
next
  case True
  with assms obtain s1 a1 m1 s2 a2 m2 a3 m3 where
    1: "plot_series s (sample_milliseconds s) = Inr (s1, a1, m1)" and
    2: "plot_series s1 (sample_stats s1 sample_drawCalls) = Inr (s2, a2, m2)" and
    3: "plot_series s2 (sample_stats s2 sample_stateChanges) = Inr (s', a3, m3)"
    by (auto simp: gui_performance_def bind_err_def split: sum.splits prod.splits)
  from plot_series_keeps [OF 1] plot_series_keeps [OF 2] plot_series_keeps [OF 3]
  obtain d1 d2 d3 where "s1 = s\<lparr>data := d1\<rparr>" "s2 = s1\<lparr>data := d2\<rparr>" "s' = s2\<lparr>data := d3\<rparr>"
    by blast
  then have "s' = s\<lparr>data := d3\<rparr>" by simp
  then show ?thesis by blast
qed

lemma gui_memory_keeps:
  assumes "gui_memory env s = Inr (s', ev)"
  shows "\<exists>d. s' = s\<lparr>data := d\<rparr>"
proof (cases "collapsingHeader env ''Memory''")
  case False
  with assms have "s' = s\<lparr>data := data s\<rparr>" by (simp add: gui_memory_def)
  then show ?thesis by blast
next
  case True
  with assms obtain s1 a1 m1 a2 m2 where
    1: "plot_series s (sample_stats s sample_meshMB) = Inr (s1, a1, m1)" and
    2: "plot_series s1 (sample_stats s1 sample_textureMB) = Inr (s', a2, m2)"
    by (auto simp: gui_memory_def bind_err_def split: sum.splits prod.splits)
  from plot_series_keeps [OF 1] plot_series_keeps [OF 2]
  obtain d1 d2 where "s1 = s\<lparr>data := d1\<rparr>" "s' = s1\<lparr>data := d2\<rparr>"
    by blast
  then have "s' = s\<lparr>data := d2\<rparr>" by simp
  then show ?thesis by blast
qed

lemma gui_performance_total:
  assumes rec: "recorded n now fs s"
    and n: "0 < n" and r2: "2 * n \<le> INT_MAX + 1" and r1: "int (length fs) + n \<le> INT_MAX + 1"
    and ok: "\<forall>f \<in> set fs. RenderStats_ok (snd f)"
  shows "\<exists>s1 ev. gui_performance env s = Inr (s1, ev) \<and> recorded n now fs s1"
proof (cases "collapsingHeader env ''Performance''")
  case True
  from gui_performance_recorded [OF rec n r2 r1 ok True] show ?thesis by blast
next
  case False
  then have "gui_performance env s = Inr (s, [])" by (simp add: gui_performance_def)
  with rec show ?thesis by blast
qed

lemma gui_memory_total:
  assumes rec: "recorded n now fs s"
    and n: "0 < n" and r2: "2 * n \<le> INT_MAX + 1" and r1: "int (length fs) + n \<le> INT_MAX + 1"
  shows "\<exists>s1 ev. gui_memory env s = Inr (s1, ev) \<and> recorded n now fs s1"
proof (cases "collapsingHeader env ''Memory''")
  case True
  from gui_memory_recorded [OF rec n r2 r1 True] show ?thesis by blast
next
  case False
  then have "gui_memory env s = Inr (s, [])" by (simp add: gui_memory_def)
  with rec show ?thesis by blast
qed

text \<open>With nothing in the three registries and no edit view open, the sections of \<open>gui\<close>
  that are modelled run through on every inspector that recorded its frames, when the
  counters of the frames and the sums of their state changes are values of \<^verbatim>\<open>int\<close>, and the
  open registry sections show their placeholders.\<close>

lemma gui_on_empty_registries:
  assumes rec: "recorded n now fs s"
    and n: "0 < n" and r2: "2 * n \<le> INT_MAX + 1" and r1: "int (length fs) + n \<le> INT_MAX + 1"
    and ok: "\<forall>f \<in> set fs. RenderStats_ok (snd f)"
    and empty: "shaders r = []" "textures r = []" "meshes r = []"
    and closed: "weak_lock heap (shaderEdit s) = None"
  shows "\<exists>s' plots. gui env heap r (s, e) =
     Inr ((s', e), plots @
       (if collapsingHeader env ''Shaders'' then [LabelText [] ''No shaders''] else []) @
       (if collapsingHeader env ''Textures'' then [LabelText [] ''No textures''] else []) @
       (if collapsingHeader env ''Meshes'' then [LabelText [] ''No meshes''] else []))"
proof -
  obtain s1 ev1 where 1: "gui_performance env s = Inr (s1, ev1)" "recorded n now fs s1"
    using gui_performance_total [OF rec n r2 r1 ok] by blast
  obtain s2 ev2 where 2: "gui_memory env s1 = Inr (s2, ev2)"
    using gui_memory_total [OF 1(2) n r2 r1] by blast
  from gui_performance_keeps [OF 1(1)] gui_memory_keeps [OF 2]
  have se: "shaderEdit s2 = shaderEdit s" by auto
  have 3: "gui_shaders env heap r s2 =
      Inr (s2, if collapsingHeader env ''Shaders'' then [LabelText [] ''No shaders''] else [])"
    using empty by (simp add: gui_shaders_def)
  have 4: "gui_textures env r s2 =
      Inr (s2, if collapsingHeader env ''Textures'' then [LabelText [] ''No textures''] else [])"
    using empty by (simp add: gui_textures_def)
  have 5: "gui_meshes env r s2 =
      Inr (s2, if collapsingHeader env ''Meshes'' then [LabelText [] ''No meshes''] else [])"
    using empty by (simp add: gui_meshes_def)
  have 6: "gui_edit env heap (s2, e) = Inr ((s2, e), [])"
    using closed by (simp add: gui_edit_def se)
  have "gui env heap r (s, e) =
     Inr ((s2, e), (ev1 @ ev2) @
       (if collapsingHeader env ''Shaders'' then [LabelText [] ''No shaders''] else []) @
       (if collapsingHeader env ''Textures'' then [LabelText [] ''No textures''] else []) @
       (if collapsingHeader env ''Meshes'' then [LabelText [] ''No meshes''] else []))"
    by (simp add: gui_def 1 2 3 4 5 6)
  then show ?thesis by blast
qed

text \<open>What keeps the selected index valid is the combo, not the line after it: an answer
  within the items passes the line unchanged.\<close>

lemma select_shader_in_range:
  assumes "combo env (selectedShader e) (length active) = (u, k)" "k < int (length active)"
  shows "select_shader env active e = (u, e\<lparr>selectedShader := k\<rparr>)"
  using assms by (simp add: select_shader_def)

text \<open>After the loop over the frame times the display buffer holds them in the order of
  recording: position \<open>k\<close> shows slot \<open>(frameCount + k) mod frames\<close>.\<close>

lemma display_buffer_in_recording_order:
  assumes rec: "recorded n now fs s"
    and n: "0 < n" and r2: "2 * n \<le> INT_MAX + 1" and r1: "int (length fs) + n \<le> INT_MAX + 1"
  shows "\<exists>avg mx. plot_series s (sample_milliseconds s) =
     Inr (s\<lparr>data := map (\<lambda>k. milliseconds s ! ((length fs + k) mod nat n)) [0..<nat n]\<rparr>,
          avg, mx)"
proof -
  have s: "frames s = n" "frameCount s = int (length fs)" "length (data s) = nat n"
    "length (milliseconds s) = nat n"
    using rec by (simp_all add: recorded_def ring_inv_def)
  have "plot_loop 0 n (int (length fs)) (sample_milliseconds s) (data s, 0, Fin 0) =
      Inr (take (nat 0) (data s) @
             map (shown (int (length fs)) n (\<lambda>j. milliseconds s ! nat j)) [nat 0..<nat n],
           foldl max 0 (map (shown (int (length fs)) n (\<lambda>j. milliseconds s ! nat j)) [nat 0..<nat n]),
           foldl (\<lambda>a v. fadd32 a (Fin v)) (Fin 0)
             (map (shown (int (length fs)) n (\<lambda>j. milliseconds s ! nat j)) [nat 0..<nat n]))"
    using n r1 r2 s
    by (intro plot_loop_result) (simp_all add: sample_milliseconds_ok)
  moreover have "shown (int (length fs)) n (\<lambda>j. milliseconds s ! nat j) k =
      milliseconds s ! ((length fs + k) mod nat n)" for k
    using n by (simp add: shown_def nat_mod_distrib nat_add_distrib)
  ultimately show ?thesis by (simp add: plot_series_def s)
qed

section \<open>Claim on the empty registries\<close>

lemma update_keeps_shaderEdit:
  assumes "update s tick rs = Inr s'"
  shows "shaderEdit s' = shaderEdit s"
  using assms
  by (auto simp: update_def Let_def bind_err_def split: sum.splits)

lemma updates_keep_shaderEdit:
  "updates s fs = Inr s' \<Longrightarrow> shaderEdit s' = shaderEdit s"
proof (induction fs arbitrary: s)
  case Nil
  then show ?case by simp
next
  case (Cons x fs)
  obtain tick rs where x: "x = (tick, rs)" by (cases x)
  from Cons.prems obtain s1 where 1: "update s tick rs = Inr s1" and 2: "updates s1 fs = Inr s'"
    by (auto simp: x bind_err_def split: sum.splits)
  from Cons.IH [OF 2] update_keeps_shaderEdit [OF 1] show ?case by simp
qed

lemma run_frames_no_edit_view:
  assumes "run_frames n now fs = Inr s"
  shows "shaderEdit s = None"
proof -
  from assms obtain s0 where 0: "Inspector_new n now = Inr s0" and 1: "updates s0 fs = Inr s"
    by (auto simp: run_frames_def bind_err_def split: sum.splits)
  from 0 have "shaderEdit s0 = None"
    by (auto simp: Inspector_new_def resize_vec_def bind_err_def split: if_splits)
  with updates_keep_shaderEdit [OF 1] show ?thesis by simp
qed

text \<open>Claim C8. With no shaders, no textures or no meshes in the registry, the section of
  that registry fails in no way and leaves the inspector as it is: under an open header
  it shows the one label \<open>No shaders\<close>, \<open>No textures\<close> or \<open>No meshes\<close>, and under a closed
  header nothing. With all three registries empty the modelled sections of \<open>gui\<close> run
  through, on an inspector that recorded any frames whose counters and sums of state
  changes are values of \<^verbatim>\<open>int\<close>, as the plot of the state changes adds them in
  \<^verbatim>\<open>int\<close>; the events of \<open>gui\<close> end with the placeholders of the open headers.\<close>

theorem empty_registry_shows_placeholder:
  "(shaders r = [] \<longrightarrow>
      gui_shaders env heap r s =
        Inr (s, if collapsingHeader env ''Shaders'' then [LabelText [] ''No shaders''] else [])) \<and>
   (textures r = [] \<longrightarrow>
      gui_textures env r s =
        Inr (s, if collapsingHeader env ''Textures'' then [LabelText [] ''No textures''] else [])) \<and>
   (meshes r = [] \<longrightarrow>
      gui_meshes env r s =
        Inr (s, if collapsingHeader env ''Meshes'' then [LabelText [] ''No meshes''] else [])) \<and>
   (shaders r = [] \<and> textures r = [] \<and> meshes r = [] \<and>
    0 < n \<and> 2 * n \<le> INT_MAX + 1 \<and> int (length fs) + n \<le> INT_MAX + 1 \<and>
    list_all (\<lambda>f. RenderStats_ok (snd f)) fs \<longrightarrow>
      (\<exists>s0 s' plots. run_frames n now fs = Inr s0 \<and>
         gui env heap r (s0, e) =
           Inr ((s', e), plots @
             (if collapsingHeader env ''Shaders'' then [LabelText [] ''No shaders''] else []) @
             (if collapsingHeader env ''Textures'' then [LabelText [] ''No textures''] else []) @
             (if collapsingHeader env ''Meshes'' then [LabelText [] ''No meshes''] else []))))"
proof (intro conjI impI)
  show "gui_shaders env heap r s =
      Inr (s, if collapsingHeader env ''Shaders'' then [LabelText [] ''No shaders''] else [])"
    if "shaders r = []"
    using that by (simp add: gui_shaders_def)
  show "gui_textures env r s =
      Inr (s, if collapsingHeader env ''Textures'' then [LabelText [] ''No textures''] else [])"
    if "textures r = []"
    using that by (simp add: gui_textures_def)
  show "gui_meshes env r s =
      Inr (s, if collapsingHeader env ''Meshes'' then [LabelText [] ''No meshes''] else [])"
    if "meshes r = []"
    using that by (simp add: gui_meshes_def)
next
  assume a: "shaders r = [] \<and> textures r = [] \<and> meshes r = [] \<and>
    0 < n \<and> 2 * n \<le> INT_MAX + 1 \<and> int (length fs) + n \<le> INT_MAX + 1 \<and>
    list_all (\<lambda>f. RenderStats_ok (snd f)) fs"
  then have n: "0 < n" and r2: "2 * n \<le> INT_MAX + 1"
    and r1: "int (length fs) + n \<le> INT_MAX + 1" and le: "int (length fs) \<le> INT_MAX"
    and ok: "\<forall>f \<in> set fs. RenderStats_ok (snd f)"
    by (simp_all add: list_all_iff)
  obtain s0 where s0: "run_frames n now fs = Inr s0" "recorded n now fs s0"
    using run_frames_recorded [OF n le, of now] by blast
  have "weak_lock heap (shaderEdit s0) = None"
    using run_frames_no_edit_view [OF s0(1)] by (simp add: weak_lock_def)
  from gui_on_empty_registries [OF s0(2) n r2 r1 ok _ _ _ this, of r env e] a s0(1)
  show "\<exists>s0 s' plots. run_frames n now fs = Inr s0 \<and>
         gui env heap r (s0, e) =
           Inr ((s', e), plots @
             (if collapsingHeader env ''Shaders'' then [LabelText [] ''No shaders''] else []) @
             (if collapsingHeader env ''Textures'' then [LabelText [] ''No textures''] else []) @
             (if collapsingHeader env ''Meshes'' then [LabelText [] ''No meshes''] else []))"
    by blast
qed

theorem empty_registry_shows_placeholder_witness:
  "(shaders no_objects = [] \<and> textures no_objects = [] \<and> meshes no_objects = [] \<and>
    (0::int) < 2 \<and> 2 * 2 \<le> INT_MAX + 1 \<and> int (length example_frames) + 2 \<le> INT_MAX + 1 \<and>
    list_all (\<lambda>f. RenderStats_ok (snd f)) example_frames) \<and>
   gui_shaders env_idle example_heap no_objects pool_one =
     Inr (pool_one, [LabelText [] ''No shaders'']) \<and>
   gui_textures env_idle no_objects pool_one = Inr (pool_one, [LabelText [] ''No textures'']) \<and>
   gui_meshes env_idle no_objects pool_one = Inr (pool_one, [LabelText [] ''No meshes'']) \<and>
   (\<exists>s0 s' plots. run_frames 2 0 example_frames = Inr s0 \<and>
      gui env_idle example_heap no_objects (s0, EditState_init) =
        Inr ((s', EditState_init), plots @
          [LabelText [] ''No shaders''] @ [LabelText [] ''No textures''] @
          [LabelText [] ''No meshes'']))"
proof -
  have h: "shaders no_objects = [] \<and> textures no_objects = [] \<and> meshes no_objects = [] \<and>
    (0::int) < 2 \<and> 2 * 2 \<le> INT_MAX + 1 \<and> int (length example_frames) + 2 \<le> INT_MAX + 1 \<and>
    list_all (\<lambda>f. RenderStats_ok (snd f)) example_frames"
    by (simp add: no_objects_def INT_MAX_def INT_MIN_def example_frames_def RenderStats_ok_def
        RenderStats_zero_def is_int32_def)
  have o: "collapsingHeader env_idle ''Shaders''" "collapsingHeader env_idle ''Textures''"
    "collapsingHeader env_idle ''Meshes''"
    by (simp_all add: env_idle_def)
  from empty_registry_shows_placeholder
    [of no_objects env_idle example_heap pool_one 2 example_frames 0 EditState_init] h
  show ?thesis by (simp only: o if_True)
qed

end
